theory Spec2Isabelle
  imports Main "HOL-Library.Word"
begin

section \<open>The single-limb multiply kernel: \<open>_gcry_mpih_mul_1\<close> (mpih-mul1.c)\<close>

subsection \<open>Limbs and memory\<close>

text \<open>
  \<open>mpi_limb_t\<close> is an unsigned machine word whose width is fixed by the platform
  (declared in mpi-internal.h); a limb is a \<open>'a word\<close>, so that every result holds
  for every width. \<open>mpi_ptr_t\<close> points to limbs: an address is an \<open>int\<close> counted in limbs,
  and pointer arithmetic is integer addition. Memory maps addresses to limbs.
\<close>

type_synonym 'a memory = "int \<Rightarrow> 'a word"

text \<open>
  Modelled from the spec: \<open>umul_ppmm\<close> of longlong.h (the spec's \<open>wide_multiply\<close>), the
  exact double-limb product of two limbs, split into its most-significant and
  least-significant limb.
\<close>

definition umul_ppmm :: "'a::len word \<Rightarrow> 'a word \<Rightarrow> 'a word \<times> 'a word" where
  "umul_ppmm u v =
     (let p = unat u * unat v
      in (of_nat (p div 2 ^ LENGTH('a)), of_nat p))"

text \<open>
  Modelled from the spec: \<open>add_ssaaaa\<close> of longlong.h (the spec's
  \<open>wide_add_with_carry_in\<close>), the sum of the double-limb values \<open>(ah, al)\<close> and
  \<open>(bh, bl)\<close> as a double-limb value \<open>(sh, sl)\<close>; a carry out of the high limb is lost.
\<close>

definition add_ssaaaa ::
  "'a::len word \<Rightarrow> 'a word \<Rightarrow> 'a word \<Rightarrow> 'a word \<Rightarrow> 'a word \<times> 'a word" where
  "add_ssaaaa ah al bh bl =
     (let s = (unat ah * 2 ^ LENGTH('a) + unat al) + (unat bh * 2 ^ LENGTH('a) + unat bl)
      in (of_nat (s div 2 ^ LENGTH('a)), of_nat s))"

subsection \<open>The function\<close>

text \<open>
  The local variables of the function that the loop changes, and the memory. \<open>stores\<close> is
  a log that the C code does not have: the address of every store \<open>res_ptr[j] = prod_low\<close>,
  in the order of execution, one entry for each execution of the loop body.
\<close>

record (overloaded) 'a mul1_state =
  mem :: "'a memory"
  cy_limb :: "'a word"
  j :: int
  stores :: "int list"

text \<open>Lines 53 to 55, the body of the \<open>do\<close> loop.\<close>

definition loop_body :: "int \<Rightarrow> int \<Rightarrow> 'a::len word \<Rightarrow> 'a mul1_state \<Rightarrow> 'a mul1_state" where
  "loop_body s1_ptr res_ptr s2_limb st =
     (let (prod_high, prod_low) = umul_ppmm (mem st (s1_ptr + j st)) s2_limb;
          (cy, prod_low) = add_ssaaaa prod_high prod_low 0 (cy_limb st)
      in st\<lparr>cy_limb := cy,
             mem := (mem st)(res_ptr + j st := prod_low),
             stores := stores st @ [res_ptr + j st]\<rparr>)"

text \<open>
  \<open>do { ... } while (++j)\<close>: the body runs before the test, and the loop goes on while the
  incremented \<open>j\<close> is not zero. \<open>mpi_size_t\<close> is a signed integer type; here it is \<open>int\<close>,
  and a loop that never reaches \<open>j = 0\<close> has the value \<open>None\<close>.
\<close>

partial_function (option) mul_1_loop ::
  "int \<Rightarrow> int \<Rightarrow> 'a::len word \<Rightarrow> 'a mul1_state \<Rightarrow> 'a mul1_state option" where
  "mul_1_loop s1_ptr res_ptr s2_limb st =
     (let st = loop_body s1_ptr res_ptr s2_limb st;
          st = st\<lparr>j := j st + 1\<rparr>
      in if j st \<noteq> 0 then mul_1_loop s1_ptr res_ptr s2_limb st else Some st)"

declare mul_1_loop.simps [code]

text \<open>
  The whole function. Its C return value is \<open>cy_limb\<close> of the final state, and \<open>mem\<close> of
  the final state is the memory it leaves.
\<close>

definition gcry_mpih_mul_1 ::
  "'a::len memory \<Rightarrow> int \<Rightarrow> int \<Rightarrow> int \<Rightarrow> 'a word \<Rightarrow> 'a mul1_state option" where
  "gcry_mpih_mul_1 m res_ptr s1_ptr s1_size s2_limb =
     (let j = - s1_size;
          s1_ptr = s1_ptr - j;
          res_ptr = res_ptr - j
      in mul_1_loop s1_ptr res_ptr s2_limb \<lparr>mem = m, cy_limb = 0, j = j, stores = []\<rparr>)"

subsection \<open>Limb sequences and their values\<close>

text \<open>The \<open>n\<close> limbs at address \<open>p\<close>, least significant first.\<close>

definition limbs :: "'a::len memory \<Rightarrow> int \<Rightarrow> nat \<Rightarrow> 'a word list" where
  "limbs m p n = map (\<lambda>i. m (p + int i)) [0..<n]"

text \<open>The base-\<open>B\<close> weighted value of a limb sequence, \<open>B = 2 ^ LENGTH('a)\<close>.\<close>

fun limbs_value :: "'a::len word list \<Rightarrow> nat" where
  "limbs_value [] = 0"
| "limbs_value (x # xs) = unat x + 2 ^ LENGTH('a) * limbs_value xs"

text \<open>
  The precondition of the spec on the two buffers: the result buffer is the source buffer
  itself, or the two ranges of \<open>n\<close> limbs are disjoint.
\<close>

definition disjoint_ranges :: "int \<Rightarrow> int \<Rightarrow> int \<Rightarrow> bool" where
  "disjoint_ranges res_ptr s1_ptr n \<longleftrightarrow> res_ptr + n \<le> s1_ptr \<or> s1_ptr + n \<le> res_ptr"

definition overlap_allowed :: "int \<Rightarrow> int \<Rightarrow> int \<Rightarrow> bool" where
  "overlap_allowed res_ptr s1_ptr n \<longleftrightarrow> res_ptr = s1_ptr \<or> disjoint_ranges res_ptr s1_ptr n"

section \<open>The known-answer test harness: t-mlkem.c\<close>

subsection \<open>What t-common.h and the C library provide\<close>

type_synonym byte = "8 word"

text \<open>An argument of a \<open>printf\<close>-style format: an integer for \<open>%d\<close>, a string for \<open>%s\<close>.\<close>

datatype arg = Arg_d int | Arg_s string

text \<open>
  What the harness writes: a call of \<open>fail\<close>, \<open>info\<close> or \<open>show_note\<close> with its format and
  arguments, or text written to \<open>stderr\<close> by \<open>fputs\<close>, \<open>fprintf\<close> or \<open>putc\<close>.
\<close>

datatype event =
    FAIL string "arg list"
  | INFO string "arg list"
  | NOTE string "arg list"
  | STDERR string

text \<open>
  A call of one of the three test functions with its arguments: the test number, the
  algorithm and the strings.
\<close>

datatype call =
    GENKEY_TEST int int string string string string
  | ENCAP_TEST int int string string string string
  | DECAP_TEST int int string string string

text \<open>
  The global variables of the harness: \<open>verbose\<close> and \<open>error_count\<close> of t-common.h and
  \<open>custom_data_file\<close> of t-mlkem.c. \<open>out\<close> is everything written so far. \<open>calls\<close> is a log
  that the C code does not have: the calls of the three test functions, in order.
\<close>

record globals =
  verbose :: int
  error_count :: int
  custom_data_file :: int
  out :: "event list"
  calls :: "call list"

text \<open>
  Modelled from the spec: \<open>fail\<close> of t-common.h, which reports a failure and counts it in
  \<open>error_count\<close>; the run goes on after it ("reported but does not abort the remaining test
  run"), as \<open>parse_annotation\<close> needs for its \<open>return 0\<close> after \<open>fail\<close>.
\<close>

definition fail :: "string \<Rightarrow> arg list \<Rightarrow> 'a globals_scheme \<Rightarrow> 'a globals_scheme" where
  "fail format args g = g\<lparr>out := out g @ [FAIL format args], error_count := error_count g + 1\<rparr>"

text \<open>Modelled from the spec: \<open>info\<close> of t-common.h, which only writes a message.\<close>

definition info :: "string \<Rightarrow> arg list \<Rightarrow> 'a globals_scheme \<Rightarrow> 'a globals_scheme" where
  "info format args g = g\<lparr>out := out g @ [INFO format args]\<rparr>"

text \<open>Modelled from the spec: \<open>show_note\<close> of t-common.h, which only writes a note.\<close>

definition show_note :: "string \<Rightarrow> arg list \<Rightarrow> 'a globals_scheme \<Rightarrow> 'a globals_scheme" where
  "show_note format args g = g\<lparr>out := out g @ [NOTE format args]\<rparr>"

text \<open>\<open>fputs\<close>, \<open>fprintf\<close> and \<open>putc\<close> to \<open>stderr\<close>.\<close>

definition to_stderr :: "string \<Rightarrow> 'a globals_scheme \<Rightarrow> 'a globals_scheme" where
  "to_stderr s g = g\<lparr>out := out g @ [STDERR s]\<rparr>"

text \<open>\<open>strchr\<close>: the rest of the string from the first occurrence of the character on.\<close>

definition strchr :: "string \<Rightarrow> char \<Rightarrow> string option" where
  "strchr s c = (case dropWhile (\<lambda>x. x \<noteq> c) s of [] \<Rightarrow> None | r \<Rightarrow> Some r)"

text \<open>
  \<open>strncmp (a, b, n) == 0\<close>: the first \<open>n\<close> characters of the two strings, or the whole
  strings where they are shorter, are equal.
\<close>

definition strncmp_eq :: "string \<Rightarrow> string \<Rightarrow> nat \<Rightarrow> bool" where
  "strncmp_eq a b n \<longleftrightarrow> take n a = take n b"

text \<open>\<open>memcmp (a, b, n) != 0\<close>: the first \<open>n\<close> bytes of the two buffers differ.\<close>

definition memcmp_ne :: "byte list \<Rightarrow> byte list \<Rightarrow> nat \<Rightarrow> bool" where
  "memcmp_ne a b n \<longleftrightarrow> take n a \<noteq> take n b"

text \<open>A white-space character and a decimal digit, as \<open>isspace\<close> and \<open>isdigit\<close> of the C library.\<close>

definition isspace :: "char \<Rightarrow> bool" where
  "isspace c \<longleftrightarrow> c \<in> {CHR '' '', CHR 0x09, CHR 0x0A, CHR 0x0B, CHR 0x0C, CHR 0x0D}"

text \<open>A character between two others, by character code.\<close>

definition in_range :: "char \<Rightarrow> char \<Rightarrow> char \<Rightarrow> bool" where
  "in_range lo c hi \<longleftrightarrow> (of_char lo :: nat) \<le> of_char c \<and> (of_char c :: nat) \<le> of_char hi"

definition isdigit :: "char \<Rightarrow> bool" where
  "isdigit c \<longleftrightarrow> in_range CHR ''0'' c CHR ''9''"

text \<open>The number that the leading decimal digits of a string write, after \<open>acc\<close>.\<close>

fun digits_value :: "int \<Rightarrow> string \<Rightarrow> int" where
  "digits_value acc [] = acc"
| "digits_value acc (c # cs) =
     (if isdigit c then digits_value (acc * 10 + (of_char c - of_char CHR ''0'')) cs else acc)"

text \<open>
  The C types \<open>long\<close> and \<open>int\<close> have 64 and 32 bits. \<open>strtol (s, NULL, 10)\<close> of the C library
  skips white space, reads an optional sign and the decimal digits that follow, and
  gives the number read, or \<open>LONG_MAX\<close> or \<open>LONG_MIN\<close> when the number is outside the range of
  \<open>long\<close>.
\<close>

definition LONG_MAX :: int where
  "LONG_MAX = 2 ^ 63 - 1"

definition LONG_MIN :: int where
  "LONG_MIN = - (2 ^ 63)"


definition strtol :: "string \<Rightarrow> int" where
  "strtol s =
     (case dropWhile isspace s of
        [] \<Rightarrow> 0
      | c # r \<Rightarrow>
          if c = CHR ''-'' then max LONG_MIN (- digits_value 0 r)
          else if c = CHR ''+'' then min LONG_MAX (digits_value 0 r)
          else min LONG_MAX (digits_value 0 (c # r)))"

text \<open>
  \<open>atoi (s)\<close> of the C library is \<open>(int) strtol (s, NULL, 10)\<close>: the conversion of the \<open>long\<close>
  to \<open>int\<close> keeps its low 32 bits, read as a signed number. So \<open>atoi\<close> gives the number read
  when it is in the range of \<open>int\<close>, and for example 512 for the digits \<open>4294967808\<close>.
\<close>

definition atoi :: "string \<Rightarrow> int" where
  "atoi s = sint (word_of_int (strtol s) :: 32 word)"

text \<open>
  Modelled from the spec: the value of a hexadecimal digit, for \<open>hex2buffer\<close>; \<open>None\<close> for
  any other character.
\<close>

definition xtoi_1 :: "char \<Rightarrow> nat option" where
  "xtoi_1 c =
     (if in_range CHR ''0'' c CHR ''9'' then Some (of_char c - of_char CHR ''0'')
      else if in_range CHR ''a'' c CHR ''f'' then Some (of_char c - of_char CHR ''a'' + 10)
      else if in_range CHR ''A'' c CHR ''F'' then Some (of_char c - of_char CHR ''A'' + 10)
      else None)"

text \<open>
  Modelled from the spec: \<open>hex2buffer\<close> of t-common.h, which decodes a
  hexadecimal-encoded field into its bytes, two digits for a byte; the result is \<open>NULL\<close>
  (here \<open>None\<close>) for an invalid hex string.
\<close>

fun hex2buffer :: "string \<Rightarrow> byte list option" where
  "hex2buffer [] = Some []"
| "hex2buffer [c] = None"
| "hex2buffer (c # d # s) =
     (case (xtoi_1 c, xtoi_1 d) of
        (Some h, Some l) \<Rightarrow> map_option ((#) (of_nat (16 * h + l))) (hex2buffer s)
      | _ \<Rightarrow> None)"

text \<open>
  Modelled from the spec: \<open>copy_data\<close> of t-common.h, which populates a field from a line:
  the new value of the field is the text after the \<open>:\<close> that ends the tag, without leading
  white space. A line without \<open>:\<close> is a syntax error and leaves the field empty.
\<close>

definition copy_data ::
  "string \<Rightarrow> int \<Rightarrow> 'a globals_scheme \<Rightarrow> string option \<times> 'a globals_scheme" where
  "copy_data line lineno g =
     (case strchr line CHR '':'' of
        None \<Rightarrow> (None, fail ''syntax error at input line %ld'' [Arg_d lineno] g)
      | Some s \<Rightarrow> (Some (dropWhile isspace (tl s)), g))"

text \<open>
  What gcrypt.h and the library provide to the harness, taken as parameters: the three
  algorithm identifiers, the length of the random seed, the three operations and
  \<open>gpg_strerror\<close>. An operation gets its input buffers and the lengths of its output
  buffers and gives its error code and the bytes that its output buffers hold after the
  call.
\<close>

record gcrypt =
  GCRY_KEM_MLKEM512 :: int
  GCRY_KEM_MLKEM768 :: int
  GCRY_KEM_MLKEM1024 :: int
  GCRY_KEM_MLKEM_RANDOM_LEN :: nat
  gcry_kem_genkey :: "int \<Rightarrow> nat \<Rightarrow> nat \<Rightarrow> byte list \<Rightarrow> int \<times> byte list \<times> byte list"
  gcry_kem_encap :: "int \<Rightarrow> byte list \<Rightarrow> nat \<Rightarrow> nat \<Rightarrow> byte list \<Rightarrow> int \<times> byte list \<times> byte list"
  gcry_kem_decap :: "int \<Rightarrow> byte list \<Rightarrow> byte list \<Rightarrow> nat \<Rightarrow> int \<times> byte list"
  gpg_strerror :: "int \<Rightarrow> string"

subsection \<open>\<open>parse_annotation\<close>\<close>

definition parse_annotation ::
  "gcrypt \<Rightarrow> string \<Rightarrow> int \<Rightarrow> 'a globals_scheme \<Rightarrow> int \<times> 'a globals_scheme" where
  "parse_annotation api line lineno g =
     (case strchr line CHR ''-'' of
        None \<Rightarrow> (0, fail ''syntax error at input line %d'' [Arg_d lineno] g)
      | Some s \<Rightarrow>
          (let n = atoi (tl s)
           in if n = 512 then (GCRY_KEM_MLKEM512 api, g)
              else if n = 1024 then (GCRY_KEM_MLKEM1024 api, g)
              else (GCRY_KEM_MLKEM768 api, g)))"

subsection \<open>The three tests\<close>

text \<open>\<open>fprintf (stderr, " %02x", b)\<close>: a blank and the two lower-case hex digits of the byte.\<close>

definition hex_digit :: "nat \<Rightarrow> char" where
  "hex_digit n = ''0123456789abcdef'' ! n"

definition hex02 :: "byte \<Rightarrow> string" where
  "hex02 b = [CHR '' '', hex_digit (unat b div 16), hex_digit (unat b mod 16)]"

text \<open>
  The dump of a buffer: \<open>fputs\<close> of the label, the \<open>for\<close> loop over the first \<open>len\<close> bytes,
  and \<open>putc\<close> of the newline.
\<close>

definition dump :: "string \<Rightarrow> byte list \<Rightarrow> nat \<Rightarrow> 'a globals_scheme \<Rightarrow> 'a globals_scheme" where
  "dump label buf len g =
     to_stderr [CHR 0x0A]
       (fold (\<lambda>b. to_stderr (hex02 b)) (take len buf) (to_stderr label g))"

text \<open>The \<open>if (memcmp (...) != 0) { ... }\<close> block that each test has for each output.\<close>

definition check_output ::
  "int \<Rightarrow> string \<Rightarrow> string \<Rightarrow> byte list \<Rightarrow> byte list \<Rightarrow> nat \<Rightarrow>
   'a globals_scheme \<Rightarrow> 'a globals_scheme" where
  "check_output testno label_computed label_knownans computed knownans len g =
     (if memcmp_ne computed knownans len
      then dump label_knownans knownans len
             (dump label_computed computed len
               (fail (''test %d failed: mismatch'' @ [CHR 0x0A]) [Arg_d testno] g))
      else g)"

definition running_test :: "int \<Rightarrow> 'a globals_scheme \<Rightarrow> 'a globals_scheme" where
  "running_test testno g =
     (if verbose g > 1 then info (''Running test %d'' @ [CHR 0x0A]) [Arg_d testno] g else g)"

definition error_preparing :: "int \<Rightarrow> string \<Rightarrow> string \<Rightarrow> 'a globals_scheme \<Rightarrow> 'a globals_scheme" where
  "error_preparing testno what why g =
     fail ''error preparing input for test %d, %s: %s'' [Arg_d testno, Arg_s what, Arg_s why] g"

definition one_genkey_test ::
  "gcrypt \<Rightarrow> int \<Rightarrow> int \<Rightarrow> string \<Rightarrow> string \<Rightarrow> string \<Rightarrow> string \<Rightarrow>
   'a globals_scheme \<Rightarrow> 'a globals_scheme" where
  "one_genkey_test api testno algo z_str d_str sk_str pk_str g0 =
     (let g = g0\<lparr>calls := calls g0 @ [GENKEY_TEST testno algo z_str d_str sk_str pk_str]\<rparr>;
          coins_len = GCRY_KEM_MLKEM_RANDOM_LEN api * 2;
          g = running_test testno g
      in case hex2buffer z_str of
           None \<Rightarrow> error_preparing testno ''z'' ''invalid hex string'' g
         | Some z \<Rightarrow>
       (case hex2buffer d_str of
           None \<Rightarrow> error_preparing testno ''d'' ''invalid hex string'' g
         | Some d \<Rightarrow>
        if length z + length d \<noteq> GCRY_KEM_MLKEM_RANDOM_LEN api * 2
        then error_preparing testno ''coins'' ''length mismatch'' g
        else
          let coins = d @ z
          in (case hex2buffer pk_str of
                None \<Rightarrow> error_preparing testno ''pk'' ''invalid hex string'' g
              | Some pk \<Rightarrow>
             (case hex2buffer sk_str of
                None \<Rightarrow> error_preparing testno ''sk'' ''invalid hex string'' g
              | Some sk \<Rightarrow>
                let (err, pk_computed, sk_computed) =
                      gcry_kem_genkey api algo (length pk) (length sk) (take coins_len coins);
                    g = (if err \<noteq> 0
                         then fail ''gcry_kem_genkey failed for test %d: %s''
                                [Arg_d testno, Arg_s (gpg_strerror api err)] g
                         else g);
                    g = check_output testno ''pk_computed:'' ''pk_knownans:''
                          pk_computed pk (length pk) g
                in check_output testno ''sk_computed:'' ''sk_knownans:''
                     sk_computed sk (length sk) g))))"

definition one_encap_test ::
  "gcrypt \<Rightarrow> int \<Rightarrow> int \<Rightarrow> string \<Rightarrow> string \<Rightarrow> string \<Rightarrow> string \<Rightarrow>
   'a globals_scheme \<Rightarrow> 'a globals_scheme" where
  "one_encap_test api testno algo pk_str coins_str ct_str ss_str g0 =
     (let g = g0\<lparr>calls := calls g0 @ [ENCAP_TEST testno algo pk_str coins_str ct_str ss_str]\<rparr>;
          g = running_test testno g
      in case hex2buffer pk_str of
           None \<Rightarrow> error_preparing testno ''pk'' ''invalid hex string'' g
         | Some pk \<Rightarrow>
       (case hex2buffer ct_str of
           None \<Rightarrow> error_preparing testno ''ct'' ''invalid hex string'' g
         | Some ct \<Rightarrow>
       (case hex2buffer ss_str of
           None \<Rightarrow> error_preparing testno ''ss'' ''invalid hex string'' g
         | Some ss \<Rightarrow>
       (case hex2buffer coins_str of
           None \<Rightarrow> error_preparing testno ''coins'' ''invalid hex string'' g
         | Some coins \<Rightarrow>
           let (err, ct_computed, ss_computed) =
                 gcry_kem_encap api algo pk (length ct) (length ss) coins;
               g = (if err \<noteq> 0
                    then fail ''gcry_kem_encap failed for test %d: %s''
                           [Arg_d testno, Arg_s (gpg_strerror api err)] g
                    else g);
               g = check_output testno ''ss_computed:'' ''ss_knownans:''
                     ss_computed ss (length ss) g
           in check_output testno ''ct_computed:'' ''ct_knownans:''
                ct_computed ct (length ct) g))))"

definition one_decap_test ::
  "gcrypt \<Rightarrow> int \<Rightarrow> int \<Rightarrow> string \<Rightarrow> string \<Rightarrow> string \<Rightarrow>
   'a globals_scheme \<Rightarrow> 'a globals_scheme" where
  "one_decap_test api testno algo sk_str ct_str ss_str g0 =
     (let g = g0\<lparr>calls := calls g0 @ [DECAP_TEST testno algo sk_str ct_str ss_str]\<rparr>;
          g = running_test testno g
      in case hex2buffer sk_str of
           None \<Rightarrow> error_preparing testno ''sk'' ''invalid hex string'' g
         | Some sk \<Rightarrow>
       (case hex2buffer ct_str of
           None \<Rightarrow> error_preparing testno ''ct'' ''invalid hex string'' g
         | Some ct \<Rightarrow>
       (case hex2buffer ss_str of
           None \<Rightarrow> error_preparing testno ''ss'' ''invalid hex string'' g
         | Some ss \<Rightarrow>
           let (err, ss_computed) = gcry_kem_decap api algo sk ct (length ss);
               g = (if err \<noteq> 0
                    then fail ''gcry_kem_decap failed for test %d: %s''
                           [Arg_d testno, Arg_s (gpg_strerror api err)] g
                    else g)
           in check_output testno ''ss_computed:'' ''ss_knownans:''
                ss_computed ss (length ss) g)))"

subsection \<open>\<open>check_mlkem_kat\<close>\<close>

definition N_TESTS :: int where
  "N_TESTS = 36"

text \<open>The global variables together with the local variables of \<open>check_mlkem_kat\<close>.\<close>

record kat_state = globals +
  algo :: int
  testno :: int
  ntests :: int
  sk_str :: "string option"
  pk_str :: "string option"
  ct_str :: "string option"
  ss_str :: "string option"
  coins_str :: "string option"
  z_str :: "string option"
  d_str :: "string option"

text \<open>Lines 401 to 430: the chain of tags, in the order of the source.\<close>

definition process_line :: "gcrypt \<Rightarrow> string \<Rightarrow> int \<Rightarrow> kat_state \<Rightarrow> kat_state" where
  "process_line api line lineno st =
     (if strncmp_eq line ''['' 1
      then (let (a, st) = parse_annotation api line lineno st in st\<lparr>algo := a\<rparr>)
      else if strncmp_eq line ''Public Key:'' 11
      then (let (b, st) = copy_data line lineno st in st\<lparr>pk_str := b\<rparr>)
      else if strncmp_eq line ''Secret Key:'' 11
      then (let (b, st) = copy_data line lineno st in st\<lparr>sk_str := b\<rparr>)
      else if strncmp_eq line ''Ciphertext:'' 11
      then (let (b, st) = copy_data line lineno st in st\<lparr>ct_str := b\<rparr>)
      else if strncmp_eq line ''Shared Secret A:'' 16
      then (let (b, st) = copy_data line lineno st in st\<lparr>ss_str := b\<rparr>)
      else if strncmp_eq line ''Shared Secret B:'' 16
      then st
      else if strncmp_eq line ''Pseudorandom'' 12
      then st
      else if strncmp_eq line ''ek:'' 3
      then (let (b, st) = copy_data line lineno st in st\<lparr>pk_str := b\<rparr>)
      else if strncmp_eq line ''m:'' 2
      then (let (b, st) = copy_data line lineno st in st\<lparr>coins_str := b\<rparr>)
      else if strncmp_eq line ''c:'' 2
      then (let (b, st) = copy_data line lineno st in st\<lparr>ct_str := b\<rparr>)
      else if strncmp_eq line ''k:'' 2
      then (let (b, st) = copy_data line lineno st in st\<lparr>ss_str := b\<rparr>)
      else if strncmp_eq line ''z:'' 2
      then (let (b, st) = copy_data line lineno st in st\<lparr>z_str := b\<rparr>)
      else if strncmp_eq line ''d:'' 2
      then (let (b, st) = copy_data line lineno st in st\<lparr>d_str := b\<rparr>)
      else if strncmp_eq line ''dk:'' 3
      then (let (b, st) = copy_data line lineno st in st\<lparr>sk_str := b\<rparr>)
      else fail ''unknown tag at input line %d'' [Arg_d lineno] st)"

text \<open>\<open>ntests++\<close> and the note after every 256 tests, which follow each call of a test.\<close>

definition count_test :: "kat_state \<Rightarrow> kat_state" where
  "count_test st =
     (let st = st\<lparr>ntests := ntests st + 1\<rparr>
      in if ntests st mod 256 = 0
         then show_note (''%d of %d tests done'' @ [CHR 0x0A]) [Arg_d (ntests st), Arg_d N_TESTS] st
         else st)"

text \<open>Lines 433 to 468: the test that the populated fields select, and their reset.\<close>

definition run_complete_record :: "gcrypt \<Rightarrow> kat_state \<Rightarrow> kat_state" where
  "run_complete_record api st =
     (if pk_str st \<noteq> None \<and> sk_str st \<noteq> None \<and> ct_str st \<noteq> None \<and> ss_str st \<noteq> None
      then
        let st = st\<lparr>testno := testno st + 1\<rparr>;
            st = one_decap_test api (testno st) (algo st)
                   (the (sk_str st)) (the (ct_str st)) (the (ss_str st)) st;
            st = count_test st
        in st\<lparr>pk_str := None, sk_str := None, ct_str := None, ss_str := None\<rparr>
      else if pk_str st \<noteq> None \<and> coins_str st \<noteq> None \<and> ct_str st \<noteq> None \<and> ss_str st \<noteq> None
      then
        let st = st\<lparr>testno := testno st + 1\<rparr>;
            st = one_encap_test api (testno st) (algo st)
                   (the (pk_str st)) (the (coins_str st)) (the (ct_str st)) (the (ss_str st)) st;
            st = count_test st
        in st\<lparr>pk_str := None, coins_str := None, ct_str := None, ss_str := None\<rparr>
      else if sk_str st \<noteq> None \<and> pk_str st \<noteq> None \<and> z_str st \<noteq> None \<and> d_str st \<noteq> None
      then
        let st = st\<lparr>testno := testno st + 1\<rparr>;
            st = one_genkey_test api (testno st) (algo st)
                   (the (z_str st)) (the (d_str st)) (the (sk_str st)) (the (pk_str st)) st;
            st = count_test st
        in st\<lparr>pk_str := None, sk_str := None, z_str := None, d_str := None\<rparr>
      else st)"

text \<open>
  One iteration of the \<open>while\<close> loop, for a line that \<open>read_textline\<close> has returned together
  with the line number it has left in \<open>lineno\<close>.
\<close>

definition kat_iteration :: "gcrypt \<Rightarrow> string \<times> int \<Rightarrow> kat_state \<Rightarrow> kat_state" where
  "kat_iteration api l st = run_complete_record api (process_line api (fst l) (snd l) st)"

text \<open>The loop over the lines of the file, until \<open>read_textline\<close> returns \<open>NULL\<close>.\<close>

fun kat_loop :: "gcrypt \<Rightarrow> (string \<times> int) list \<Rightarrow> kat_state \<Rightarrow> kat_state" where
  "kat_loop api [] st = st"
| "kat_loop api (l # ls) st = kat_loop api ls (kat_iteration api l st)"

text \<open>
  The whole function, lines 381 to 484. Its file is \<open>None\<close> when \<open>fopen\<close> fails, and else
  the lines that \<open>read_textline\<close> returns, each with its line number. \<open>die\<close> of t-common.h
  is not in the sources; as in the spec it terminates the process, and a run that it ends
  has the value \<open>None\<close>. The result is the global variables at the return.
\<close>

definition check_mlkem_kat ::
  "gcrypt \<Rightarrow> int \<Rightarrow> (string \<times> int) list option \<Rightarrow> globals \<Rightarrow> globals option" where
  "check_mlkem_kat api algo0 fp g =
     (let g = info (''Checking ML-KEM.'' @ [CHR 0x0A]) [] g
      in case fp of
           None \<Rightarrow> None
         | Some lines \<Rightarrow>
             let st = globals.extend g
                        (kat_state.fields algo0 0 0 None None None None None None None);
                 st = kat_loop api lines st;
                 st = (if ntests st \<noteq> N_TESTS \<and> custom_data_file st = 0
                       then fail ''did %d tests but expected %d''
                              [Arg_d (ntests st), Arg_d N_TESTS] st
                       else if ntests st mod 256 \<noteq> 0
                       then show_note (''%d tests done'' @ [CHR 0x0A]) [Arg_d (ntests st)] st
                       else st)
             in Some (globals.truncate st))"

text \<open>
  \<open>main\<close> from line 573 on, when the options are parsed and the library is initialised:
  the run of the tests and the exit status \<open>!!error_count\<close>. \<open>elapsed\<close> is the string that
  \<open>elapsed_time\<close> returns.
\<close>

definition main_run ::
  "gcrypt \<Rightarrow> int \<Rightarrow> (string \<times> int) list option \<Rightarrow> string \<Rightarrow> globals \<Rightarrow> (int \<times> globals) option" where
  "main_run api algo0 fp elapsed g =
     (case check_mlkem_kat api algo0 fp g of
        None \<Rightarrow> None
      | Some g \<Rightarrow>
          let g = info (''All tests completed in %s.  Errors: %d'' @ [CHR 0x0A])
                    [Arg_s elapsed, Arg_d (error_count g)] g
          in Some (if error_count g \<noteq> 0 then 1 else 0, g))"

text \<open>
  A library for running the harness on concrete lines: the identifiers of gcrypt.h, and
  operations that succeed and fill their output buffers with zero bytes.
\<close>

definition zero_kem :: gcrypt where
  "zero_kem =
     \<lparr>GCRY_KEM_MLKEM512 = 3, GCRY_KEM_MLKEM768 = 4, GCRY_KEM_MLKEM1024 = 5,
      GCRY_KEM_MLKEM_RANDOM_LEN = 32,
      gcry_kem_genkey = (\<lambda>algo pk_len sk_len coins. (0, replicate pk_len 0, replicate sk_len 0)),
      gcry_kem_encap = (\<lambda>algo pk ct_len ss_len coins. (0, replicate ct_len 0, replicate ss_len 0)),
      gcry_kem_decap = (\<lambda>algo sk ct ss_len. (0, replicate ss_len 0)),
      gpg_strerror = (\<lambda>err. ''error'')\<rparr>"

definition globals0 :: globals where
  "globals0 = \<lparr>verbose = 0, error_count = 0, custom_data_file = 1, out = [], calls = []\<rparr>"

text \<open>The state of \<open>check_mlkem_kat\<close> before its loop, for the globals above.\<close>

definition kat_state0 :: kat_state where
  "kat_state0 =
     globals.extend globals0 (kat_state.fields 0 0 0 None None None None None None None)"

subsection \<open>Notions for stating the properties\<close>

text \<open>
  The fields that the spec requires for a decapsulation, an encapsulation and a
  key-generation test.
\<close>

definition decap_complete :: "kat_state \<Rightarrow> bool" where
  "decap_complete st \<longleftrightarrow>
     pk_str st \<noteq> None \<and> sk_str st \<noteq> None \<and> ct_str st \<noteq> None \<and> ss_str st \<noteq> None"

definition encap_complete :: "kat_state \<Rightarrow> bool" where
  "encap_complete st \<longleftrightarrow>
     pk_str st \<noteq> None \<and> coins_str st \<noteq> None \<and> ct_str st \<noteq> None \<and> ss_str st \<noteq> None"

definition genkey_complete :: "kat_state \<Rightarrow> bool" where
  "genkey_complete st \<longleftrightarrow>
     sk_str st \<noteq> None \<and> pk_str st \<noteq> None \<and> z_str st \<noteq> None \<and> d_str st \<noteq> None"

text \<open>
  The tags that the harness recognizes, each with the number of characters that
  \<open>strncmp\<close> compares, and a line that starts with one of them.
\<close>

definition recognized_tags :: "(string \<times> nat) list" where
  "recognized_tags =
     [(''['', 1), (''Public Key:'', 11), (''Secret Key:'', 11), (''Ciphertext:'', 11),
      (''Shared Secret A:'', 16), (''Shared Secret B:'', 16), (''Pseudorandom'', 12),
      (''ek:'', 3), (''m:'', 2), (''c:'', 2), (''k:'', 2), (''z:'', 2), (''d:'', 2),
      (''dk:'', 3)]"

definition recognized :: "string \<Rightarrow> bool" where
  "recognized line \<longleftrightarrow> list_ex (\<lambda>t. strncmp_eq line (fst t) (snd t)) recognized_tags"





text \<open>A line that populates the public-key field.\<close>

definition public_key_line :: "string \<Rightarrow> bool" where
  "public_key_line line \<longleftrightarrow> strncmp_eq line ''Public Key:'' 11 \<or> strncmp_eq line ''ek:'' 3"

text \<open>
  A step that only reports: it changes nothing but \<open>out\<close> and \<open>error_count\<close>, it keeps what
  was written before, and it does not lower the count of errors.
\<close>

definition reports_only :: "'a globals_scheme \<Rightarrow> 'a globals_scheme \<Rightarrow> bool" where
  "reports_only g g' \<longleftrightarrow>
     g' = g\<lparr>out := out g', error_count := error_count g'\<rparr>
     \<and> error_count g \<le> error_count g' \<and> (\<exists>es. out g' = out g @ es)"


text \<open>A state without what was reported: \<open>out\<close> and \<open>error_count\<close> are cleared.\<close>

definition core :: "'a globals_scheme \<Rightarrow> 'a globals_scheme" where
  "core g = g\<lparr>out := [], error_count := 0\<rparr>"

section \<open>Properties of the kernel\<close>

subsection \<open>The limb primitives\<close>

lemma limb_product_bound:
  fixes x v cy :: "'a::len word"
  shows "unat x * unat v + unat cy < 2 ^ LENGTH('a) * 2 ^ LENGTH('a)"
proof -
  obtain M :: nat where M: "2 ^ LENGTH('a) = Suc M"
    by (metis not0_implies_Suc power_not_zero zero_neq_numeral)
  have "unat x < 2 ^ LENGTH('a)" "unat v < 2 ^ LENGTH('a)" "unat cy < 2 ^ LENGTH('a)"
    by (rule unsigned_less)+
  then have x: "unat x \<le> M" and v: "unat v \<le> M" and c: "unat cy \<le> M"
    by (simp_all add: M)
  have "unat x * unat v \<le> M * M"
    using x v by (rule mult_le_mono)
  then have "unat x * unat v + unat cy < Suc M * Suc M"
    using c by simp
  then show ?thesis
    by (simp only: M)
qed

lemma umul_ppmm_unat:
  fixes x v :: "'a::len word"
  assumes "umul_ppmm x v = (ph, pl)"
  shows "unat ph = (unat x * unat v) div 2 ^ LENGTH('a)"
    and "unat pl = (unat x * unat v) mod 2 ^ LENGTH('a)"
proof -
  have "unat x * unat v < 2 ^ LENGTH('a) * 2 ^ LENGTH('a)"
    using limb_product_bound [of x v 0] by simp
  then have "(unat x * unat v) div 2 ^ LENGTH('a) < 2 ^ LENGTH('a)"
    by (simp add: less_mult_imp_div_less)
  then show "unat ph = (unat x * unat v) div 2 ^ LENGTH('a)"
    using assms by (auto simp: umul_ppmm_def Let_def unat_of_nat)
  show "unat pl = (unat x * unat v) mod 2 ^ LENGTH('a)"
    using assms by (auto simp: umul_ppmm_def Let_def unat_word_ariths)
qed

text \<open>One step of the loop: the new low limb and the new carry hold \<open>x * v + cy\<close> exactly.\<close>

lemma mul_1_step_value:
  fixes x v cy :: "'a::len word"
  assumes p: "umul_ppmm x v = (ph, pl)" and a: "add_ssaaaa ph pl 0 cy = (cy', lo)"
  shows "unat lo + 2 ^ LENGTH('a) * unat cy' = unat x * unat v + unat cy"
proof -
  let ?B = "(2::nat) ^ LENGTH('a)"
  let ?s = "unat x * unat v + unat cy"
  have s: "unat ph * ?B + unat pl + (unat (0::'a word) * ?B + unat cy) = ?s"
    using umul_ppmm_unat [OF p] div_mult_mod_eq [of "unat x * unat v" ?B] by simp
  have "?s < ?B * ?B"
    by (rule limb_product_bound)
  then have hi: "?s div ?B < ?B"
    by (simp add: less_mult_imp_div_less)
  have "cy' = of_nat (?s div ?B)" and "lo = of_nat ?s"
    using a unfolding add_ssaaaa_def Let_def s by auto
  then have "unat cy' = ?s div ?B" and "unat lo = ?s mod ?B"
    using hi by (simp_all add: unat_of_nat unat_word_ariths mod_simps)
  then show ?thesis
    by simp
qed

subsection \<open>Values of limb sequences\<close>

text \<open>A sequence of \<open>n\<close> limbs has a value below \<open>B ^ n\<close>, and the value determines the limbs.\<close>

lemma limbs_value_bound:
  fixes xs :: "'a::len word list"
  shows "limbs_value xs < (2 ^ LENGTH('a)) ^ length xs"
proof (induction xs)
  case Nil
  show ?case by simp
next
  case (Cons x xs)
  let ?B = "(2::nat) ^ LENGTH('a)"
  have x: "unat x < ?B"
    by (rule unsigned_less)
  have "Suc (limbs_value xs) \<le> ?B ^ length xs"
    using Cons.IH by simp
  then have le: "?B * Suc (limbs_value xs) \<le> ?B * ?B ^ length xs"
    by (rule mult_le_mono2)
  have "limbs_value (x # xs) < ?B + ?B * limbs_value xs"
    using x by simp
  also have "\<dots> = ?B * Suc (limbs_value xs)"
    by simp
  also note le
  finally show ?case
    by simp
qed

lemma limbs_value_inj:
  fixes xs ys :: "'a::len word list"
  assumes "length xs = length ys" and "limbs_value xs = limbs_value ys"
  shows "xs = ys"
  using assms
proof (induction xs ys rule: list_induct2)
  case Nil
  show ?case by simp
next
  case (Cons x xs y ys)
  let ?B = "(2::nat) ^ LENGTH('a)"
  have e: "unat x + ?B * limbs_value xs = unat y + ?B * limbs_value ys"
    using Cons.prems by simp
  have lt: "unat x < ?B" "unat y < ?B"
    by (rule unsigned_less)+
  have "(unat x + ?B * limbs_value xs) mod ?B = unat x"
    and "(unat y + ?B * limbs_value ys) mod ?B = unat y"
    using lt by simp_all
  with e have xy: "unat x = unat y"
    by simp
  then have "x = y"
    by (simp add: word_unat_eq_iff)
  moreover have "limbs_value xs = limbs_value ys"
    using e xy by simp
  ultimately show ?case
    using Cons.IH by simp
qed

subsection \<open>The loop\<close>

lemma limbs_length [simp]: "length (limbs m p n) = n"
  by (simp add: limbs_def)

lemma limbs_Suc: "limbs m p (Suc n) = m p # limbs m (p + 1) n"
  by (simp add: limbs_def map_upt_Suc add.assoc del: upt_Suc)

lemma limbs_cong: "(\<And>i. i < n \<Longrightarrow> m (p + int i) = m' (p' + int i)) \<Longrightarrow> limbs m p n = limbs m' p' n"
  by (simp add: limbs_def)

text \<open>The loop unfolded once.\<close>

lemma mul_1_loop_step:
  "mul_1_loop sp rp v st =
     (if j st + 1 \<noteq> 0
      then mul_1_loop sp rp v ((loop_body sp rp v st)\<lparr>j := j st + 1\<rparr>)
      else Some ((loop_body sp rp v st)\<lparr>j := j st + 1\<rparr>))"
  by (subst mul_1_loop.simps) (simp add: Let_def loop_body_def split: prod.splits)

lemma loop_body_fields:
  assumes "umul_ppmm (mem st (sp + j st)) v = (ph, pl)"
    and "add_ssaaaa ph pl 0 (cy_limb st) = (cy', lo)"
  shows "mem (loop_body sp rp v st) = (mem st)(rp + j st := lo)"
    and "cy_limb (loop_body sp rp v st) = cy'"
    and "stores (loop_body sp rp v st) = stores st @ [rp + j st]"
    and "j (loop_body sp rp v st) = j st"
  using assms by (simp_all add: loop_body_def)

text \<open>
  The loop started at \<open>j = - (k + 1)\<close> ends after \<open>k + 1\<close> executions of its body,
  storing once to each of the \<open>k + 1\<close> addresses below \<open>rp\<close> in rising order and to no
  other address. When no store reaches a source limb still to be read (\<open>rp \<le> sp\<close> or
  the result lies wholly above the source), result and carry together hold the source
  times \<open>v\<close> plus the carry at entry.
\<close>

lemma mul_1_loop_correct:
  fixes st :: "'a::len mul1_state"
  assumes "j st = - int (Suc k)"
  shows "\<exists>st'. mul_1_loop sp rp v st = Some st' \<and> j st' = 0
     \<and> stores st' = stores st @ map (\<lambda>i. rp - int (Suc k) + int i) [0..<Suc k]
     \<and> (\<forall>a. a < rp - int (Suc k) \<or> rp \<le> a \<longrightarrow> mem st' a = mem st a)
     \<and> (rp \<le> sp \<or> sp + int (Suc k) \<le> rp \<longrightarrow>
          limbs_value (limbs (mem st') (rp - int (Suc k)) (Suc k))
            + (2 ^ LENGTH('a)) ^ Suc k * unat (cy_limb st')
          = limbs_value (limbs (mem st) (sp - int (Suc k)) (Suc k)) * unat v
            + unat (cy_limb st))"
  using assms
proof (induction k arbitrary: st)
  case 0
  obtain ph pl where p: "umul_ppmm (mem st (sp + j st)) v = (ph, pl)"
    by (cases "umul_ppmm (mem st (sp + j st)) v")
  obtain cy' lo where a: "add_ssaaaa ph pl 0 (cy_limb st) = (cy', lo)"
    by (cases "add_ssaaaa ph pl 0 (cy_limb st)")
  note f = loop_body_fields [OF p a, of rp]
  have v: "unat lo + 2 ^ LENGTH('a) * unat cy' = unat (mem st (sp - 1)) * unat v + unat (cy_limb st)"
    using mul_1_step_value [OF p a] "0.prems" by simp
  show ?case
    using "0.prems" v
    by (subst mul_1_loop_step) (simp add: f limbs_def)
next
  case (Suc k)
  let ?K = "int (Suc (Suc k))"
  let ?B = "(2::nat) ^ LENGTH('a)"
  obtain ph pl where p: "umul_ppmm (mem st (sp + j st)) v = (ph, pl)"
    by (cases "umul_ppmm (mem st (sp + j st)) v")
  obtain cy' lo where a: "add_ssaaaa ph pl 0 (cy_limb st) = (cy', lo)"
    by (cases "add_ssaaaa ph pl 0 (cy_limb st)")
  note f = loop_body_fields [OF p a, of rp]
  define st1 where "st1 = (loop_body sp rp v st)\<lparr>j := j st + 1\<rparr>"
  have j1: "j st1 = - int (Suc k)"
    using Suc.prems by (simp add: st1_def)
  have addr: "rp + j st = rp - ?K" "sp + j st = sp - ?K"
    using Suc.prems by linarith+
  have mem1: "mem st1 = (mem st)(rp - ?K := lo)"
    and cy1: "cy_limb st1 = cy'"
    and stores1: "stores st1 = stores st @ [rp - ?K]"
    by (simp_all add: st1_def f addr)
  have v: "unat lo + ?B * unat cy' = unat (mem st (sp - ?K)) * unat v + unat (cy_limb st)"
    using mul_1_step_value [OF p a] by (simp only: addr)
  from Suc.IH [OF j1] obtain st' where
    run: "mul_1_loop sp rp v st1 = Some st'" and j': "j st' = 0"
    and stores': "stores st' = stores st1 @ map (\<lambda>i. rp - int (Suc k) + int i) [0..<Suc k]"
    and frame': "\<forall>a. a < rp - int (Suc k) \<or> rp \<le> a \<longrightarrow> mem st' a = mem st1 a"
    and value': "rp \<le> sp \<or> sp + int (Suc k) \<le> rp \<longrightarrow>
          limbs_value (limbs (mem st') (rp - int (Suc k)) (Suc k))
            + ?B ^ Suc k * unat (cy_limb st')
          = limbs_value (limbs (mem st1) (sp - int (Suc k)) (Suc k)) * unat v
            + unat (cy_limb st1)"
    by blast
  have run0: "mul_1_loop sp rp v st = Some st'"
    using Suc.prems run by (subst mul_1_loop_step) (simp add: st1_def)
  have st: "stores st' = stores st @ map (\<lambda>i. rp - ?K + int i) [0..<Suc (Suc k)]"
    unfolding stores' stores1
    by (simp add: map_upt_Suc [of _ "Suc k"] del: upt_Suc)
  have fr: "\<forall>a. a < rp - ?K \<or> rp \<le> a \<longrightarrow> mem st' a = mem st a"
    using frame' by (simp add: mem1)
  have val: "limbs_value (limbs (mem st') (rp - ?K) (Suc (Suc k)))
            + ?B ^ Suc (Suc k) * unat (cy_limb st')
          = limbs_value (limbs (mem st) (sp - ?K) (Suc (Suc k))) * unat v
            + unat (cy_limb st)"
    if ov: "rp \<le> sp \<or> sp + ?K \<le> rp"
  proof -
    have src: "limbs (mem st1) (sp - int (Suc k)) (Suc k) = limbs (mem st) (sp - int (Suc k)) (Suc k)"
      using ov by (intro limbs_cong) (auto simp: mem1)
    have low: "mem st' (rp - ?K) = lo"
      using frame' by (simp add: mem1)
    have "rp \<le> sp \<or> sp + int (Suc k) \<le> rp"
      using ov by auto
    with value' have "limbs_value (limbs (mem st') (rp - int (Suc k)) (Suc k))
            + ?B ^ Suc k * unat (cy_limb st')
          = limbs_value (limbs (mem st1) (sp - int (Suc k)) (Suc k)) * unat v
            + unat (cy_limb st1)"
      by blast
    then have "limbs_value (limbs (mem st') (rp - int (Suc k)) (Suc k))
            + ?B ^ Suc k * unat (cy_limb st')
          = limbs_value (limbs (mem st) (sp - int (Suc k)) (Suc k)) * unat v + unat cy'"
      by (simp only: src cy1)
    then have "?B * (limbs_value (limbs (mem st') (rp - int (Suc k)) (Suc k))
            + ?B ^ Suc k * unat (cy_limb st'))
          = ?B * (limbs_value (limbs (mem st) (sp - int (Suc k)) (Suc k)) * unat v + unat cy')"
      by simp
    moreover have eq1: "rp - ?K + 1 = rp - int (Suc k)" "sp - ?K + 1 = sp - int (Suc k)"
      by simp_all
    have "limbs (mem st') (rp - ?K) (Suc (Suc k))
            = lo # limbs (mem st') (rp - int (Suc k)) (Suc k)"
      and "limbs (mem st) (sp - ?K) (Suc (Suc k))
            = mem st (sp - ?K) # limbs (mem st) (sp - int (Suc k)) (Suc k)"
      by (simp_all only: limbs_Suc [where n = "Suc k"] low eq1)
    ultimately show ?thesis
      using v by (simp add: algebra_simps)
  qed
  show ?case
    using run0 j' st fr val by blast
qed

subsection \<open>The whole function\<close>

text \<open>
  For \<open>s1_size \<ge> 1\<close> the function returns. It stores once to each of
  \<open>res_ptr[0]\<close>, ..., \<open>res_ptr[s1_size - 1]\<close> in this order and leaves every other address
  as it was; and when the result buffer does not start inside the source above its first
  limb, result and carry together hold the source times \<open>v\<close>.
\<close>

lemma gcry_mpih_mul_1_run:
  fixes m :: "'a::len memory"
  assumes "1 \<le> s1_size"
  shows "\<exists>st. gcry_mpih_mul_1 m res_ptr s1_ptr s1_size v = Some st \<and> j st = 0
     \<and> stores st = map (\<lambda>i. res_ptr + int i) [0..<nat s1_size]
     \<and> (\<forall>a. a < res_ptr \<or> res_ptr + s1_size \<le> a \<longrightarrow> mem st a = m a)
     \<and> (res_ptr \<le> s1_ptr \<or> s1_ptr + s1_size \<le> res_ptr \<longrightarrow>
          limbs_value (limbs (mem st) res_ptr (nat s1_size))
            + (2 ^ LENGTH('a)) ^ nat s1_size * unat (cy_limb st)
          = limbs_value (limbs m s1_ptr (nat s1_size)) * unat v)"
proof -
  define k where "k = nat s1_size - 1"
  have k: "s1_size = int (Suc k)"
    using assms by (simp add: k_def)
  define sp rp where "sp = s1_ptr - - s1_size" and "rp = res_ptr - - s1_size"
  let ?st = "\<lparr>mem = m, cy_limb = 0, j = - s1_size, stores = []\<rparr> :: 'a mul1_state"
  have "j ?st = - int (Suc k)"
    by (simp add: k)
  from mul_1_loop_correct [OF this, of sp rp v] obtain st where
    run: "mul_1_loop sp rp v ?st = Some st" and j: "j st = 0"
    and st: "stores st = stores ?st @ map (\<lambda>i. rp - int (Suc k) + int i) [0..<Suc k]"
    and fr: "\<forall>a. a < rp - int (Suc k) \<or> rp \<le> a \<longrightarrow> mem st a = mem ?st a"
    and val: "rp \<le> sp \<or> sp + int (Suc k) \<le> rp \<longrightarrow>
          limbs_value (limbs (mem st) (rp - int (Suc k)) (Suc k))
            + (2 ^ LENGTH('a)) ^ Suc k * unat (cy_limb st)
          = limbs_value (limbs (mem ?st) (sp - int (Suc k)) (Suc k)) * unat v
            + unat (cy_limb ?st)"
    by blast
  have base: "rp - int (Suc k) = res_ptr" "sp - int (Suc k) = s1_ptr"
    and n: "nat s1_size = Suc k"
    by (simp_all add: sp_def rp_def k)
  have "gcry_mpih_mul_1 m res_ptr s1_ptr s1_size v = Some st"
    using run by (simp add: gcry_mpih_mul_1_def Let_def sp_def rp_def)
  moreover have "stores st = map (\<lambda>i. res_ptr + int i) [0..<nat s1_size]"
    using st by (simp only: base n) simp
  moreover have "\<forall>a. a < res_ptr \<or> res_ptr + s1_size \<le> a \<longrightarrow> mem st a = m a"
    using fr unfolding base by (simp add: rp_def)
  moreover have "limbs_value (limbs (mem st) res_ptr (nat s1_size))
            + (2 ^ LENGTH('a)) ^ nat s1_size * unat (cy_limb st)
          = limbs_value (limbs m s1_ptr (nat s1_size)) * unat v"
    if "res_ptr \<le> s1_ptr \<or> s1_ptr + s1_size \<le> res_ptr"
  proof -
    have "rp \<le> sp \<or> sp + int (Suc k) \<le> rp"
      using that by (auto simp: sp_def rp_def k)
    with val show ?thesis
      by (simp only: base n) simp
  qed
  ultimately show ?thesis
    using j by blast
qed

subsection \<open>The claims about the kernel\<close>

lemma overlap_allowed_cases:
  "overlap_allowed res_ptr s1_ptr n \<Longrightarrow> 0 \<le> n \<Longrightarrow> res_ptr \<le> s1_ptr \<or> s1_ptr + n \<le> res_ptr"
  by (auto simp: overlap_allowed_def disjoint_ranges_def)

lemma mul_1_div_mod:
  fixes R :: "'a::len word list"
  assumes "limbs_value R + (2 ^ LENGTH('a)) ^ length R * c = p"
  shows "limbs_value R = p mod (2 ^ LENGTH('a)) ^ length R"
    and "c = p div (2 ^ LENGTH('a)) ^ length R"
  using assms limbs_value_bound [of R] by auto

text \<open>
  Claim C1. For a source of \<open>s1_size \<ge> 1\<close> limbs and any scalar limb \<open>v\<close>, with the result
  buffer either the source buffer itself or disjoint from it, the function returns, and
  the value of the result limbs plus the returned carry times \<open>B ^ s1_size\<close> is the value
  of the source times \<open>v\<close>, where \<open>B = 2 ^ LENGTH('a)\<close>. So the result limbs are the low
  \<open>s1_size\<close> limbs of the product (its value modulo \<open>B ^ s1_size\<close>) and the carry is the
  limb above them (the product divided by \<open>B ^ s1_size\<close>).
\<close>

theorem mul_1_carry_correct:
  fixes m :: "'a::len memory"
  assumes "1 \<le> s1_size" and "overlap_allowed res_ptr s1_ptr s1_size"
  shows "\<exists>st. gcry_mpih_mul_1 m res_ptr s1_ptr s1_size v = Some st
     \<and> limbs_value (limbs (mem st) res_ptr (nat s1_size))
           + unat (cy_limb st) * (2 ^ LENGTH('a)) ^ nat s1_size
         = limbs_value (limbs m s1_ptr (nat s1_size)) * unat v
     \<and> limbs_value (limbs (mem st) res_ptr (nat s1_size))
         = (limbs_value (limbs m s1_ptr (nat s1_size)) * unat v) mod (2 ^ LENGTH('a)) ^ nat s1_size
     \<and> unat (cy_limb st)
         = (limbs_value (limbs m s1_ptr (nat s1_size)) * unat v) div (2 ^ LENGTH('a)) ^ nat s1_size"
proof -
  let ?n = "nat s1_size"
  have ov: "res_ptr \<le> s1_ptr \<or> s1_ptr + s1_size \<le> res_ptr"
    using assms by (intro overlap_allowed_cases) simp_all
  from gcry_mpih_mul_1_run [OF assms(1), of m res_ptr s1_ptr v] ov obtain st where
    run: "gcry_mpih_mul_1 m res_ptr s1_ptr s1_size v = Some st"
    and val: "limbs_value (limbs (mem st) res_ptr ?n) + (2 ^ LENGTH('a)) ^ ?n * unat (cy_limb st)
          = limbs_value (limbs m s1_ptr ?n) * unat v"
    by blast
  have val': "limbs_value (limbs (mem st) res_ptr ?n)
      + (2 ^ LENGTH('a)) ^ length (limbs (mem st) res_ptr ?n) * unat (cy_limb st)
      = limbs_value (limbs m s1_ptr ?n) * unat v"
    using val by simp
  show ?thesis
    using run val mul_1_div_mod [OF val'] by (simp add: mult.commute)
qed


theorem mul_1_carry_correct_witness:
  "1 \<le> (3::int) \<and> overlap_allowed 10 0 3
   \<and> (\<exists>st. gcry_mpih_mul_1 ((\<lambda>_. 0)(0 := 255, 1 := 255, 2 := 3 :: 8 word)) 10 0 3 255 = Some st
     \<and> limbs_value (limbs (mem st) 10 (nat 3)) + unat (cy_limb st) * (2 ^ LENGTH(8)) ^ nat 3
         = limbs_value (limbs ((\<lambda>_. 0)(0 := 255, 1 := 255, 2 := 3 :: 8 word)) 0 (nat 3)) * unat (255 :: 8 word)
     \<and> limbs_value (limbs (mem st) 10 (nat 3))
         = (limbs_value (limbs ((\<lambda>_. 0)(0 := 255, 1 := 255, 2 := 3 :: 8 word)) 0 (nat 3)) * unat (255 :: 8 word))
             mod (2 ^ LENGTH(8)) ^ nat 3
     \<and> unat (cy_limb st)
         = (limbs_value (limbs ((\<lambda>_. 0)(0 := 255, 1 := 255, 2 := 3 :: 8 word)) 0 (nat 3)) * unat (255 :: 8 word))
             div (2 ^ LENGTH(8)) ^ nat 3)"
proof -
  have h1: "1 \<le> (3::int)"
    by simp
  have h2: "overlap_allowed 10 0 3"
    by (simp add: overlap_allowed_def disjoint_ranges_def)
  show ?thesis
    using h1 h2 mul_1_carry_correct [OF h1 h2] by (intro conjI)
qed

text \<open>
  Claim C2. For \<open>s1_size \<ge> 1\<close> the function terminates, and its loop body runs exactly
  \<open>s1_size\<close> times, once for each limb position from the least significant one upwards:
  the stores are to \<open>res_ptr + 0\<close>, ..., \<open>res_ptr + (s1_size - 1)\<close> in this order, whatever
  the memory and the scalar hold, and the loop ends with \<open>j = 0\<close>.
\<close>

theorem mul_1_iterations:
  fixes m :: "'a::len memory"
  assumes "1 \<le> s1_size"
  shows "\<exists>st. gcry_mpih_mul_1 m res_ptr s1_ptr s1_size v = Some st
     \<and> stores st = map (\<lambda>i. res_ptr + int i) [0..<nat s1_size]
     \<and> int (length (stores st)) = s1_size
     \<and> j st = 0"
proof -
  from gcry_mpih_mul_1_run [OF assms, of m res_ptr s1_ptr v] obtain st where
    "gcry_mpih_mul_1 m res_ptr s1_ptr s1_size v = Some st"
    and "stores st = map (\<lambda>i. res_ptr + int i) [0..<nat s1_size]"
    and "j st = 0"
    by blast
  then show ?thesis
    using assms by simp
qed

theorem mul_1_iterations_witness:
  "1 \<le> (3::int)
   \<and> (\<exists>st. gcry_mpih_mul_1 ((\<lambda>_. 0)(0 := 255, 1 := 255, 2 := 3 :: 8 word)) 10 0 3 255 = Some st
     \<and> stores st = map (\<lambda>i. 10 + int i) [0..<nat 3]
     \<and> int (length (stores st)) = 3
     \<and> j st = 0)"
proof -
  have h1: "1 \<le> (3::int)"
    by simp
  show ?thesis
    using h1 mul_1_iterations [OF h1] by (intro conjI)
qed

text \<open>
  Claim C5. With a result buffer disjoint from the source, the function writes only the
  limbs \<open>res_ptr[0]\<close>, ..., \<open>res_ptr[s1_size - 1]\<close>: every address outside this range holds
  what it held before, the source limbs among them, and the addresses stored to are
  exactly those of the result range.
\<close>

theorem mul_1_frame:
  fixes m :: "'a::len memory"
  assumes "1 \<le> s1_size" and "disjoint_ranges res_ptr s1_ptr s1_size"
  shows "\<exists>st. gcry_mpih_mul_1 m res_ptr s1_ptr s1_size v = Some st
     \<and> (\<forall>a. \<not> (res_ptr \<le> a \<and> a < res_ptr + s1_size) \<longrightarrow> mem st a = m a)
     \<and> limbs (mem st) s1_ptr (nat s1_size) = limbs m s1_ptr (nat s1_size)
     \<and> set (stores st) = {res_ptr ..< res_ptr + s1_size}"
proof -
  from gcry_mpih_mul_1_run [OF assms(1), of m res_ptr s1_ptr v] obtain st where
    run: "gcry_mpih_mul_1 m res_ptr s1_ptr s1_size v = Some st"
    and st: "stores st = map (\<lambda>i. res_ptr + int i) [0..<nat s1_size]"
    and fr: "\<forall>a. a < res_ptr \<or> res_ptr + s1_size \<le> a \<longrightarrow> mem st a = m a"
    by blast
  have frame: "\<forall>a. \<not> (res_ptr \<le> a \<and> a < res_ptr + s1_size) \<longrightarrow> mem st a = m a"
    using fr by auto
  have src: "limbs (mem st) s1_ptr (nat s1_size) = limbs m s1_ptr (nat s1_size)"
  proof (rule limbs_cong)
    fix i
    assume "i < nat s1_size"
    then have "\<not> (res_ptr \<le> s1_ptr + int i \<and> s1_ptr + int i < res_ptr + s1_size)"
      using assms(2) by (auto simp: disjoint_ranges_def)
    with frame show "mem st (s1_ptr + int i) = m (s1_ptr + int i)"
      by blast
  qed
  have "set (stores st) = {res_ptr ..< res_ptr + s1_size}"
  proof -
    have "set (stores st) = (\<lambda>i. res_ptr + int i) ` {0..<nat s1_size}"
      by (simp add: st)
    also have "\<dots> = {res_ptr ..< res_ptr + s1_size}"
    proof (intro set_eqI iffI)
      fix a
      assume "a \<in> (\<lambda>i. res_ptr + int i) ` {0..<nat s1_size}"
      then show "a \<in> {res_ptr ..< res_ptr + s1_size}"
        by auto
    next
      fix a
      assume a: "a \<in> {res_ptr ..< res_ptr + s1_size}"
      then have "a = res_ptr + int (nat (a - res_ptr))" and "nat (a - res_ptr) < nat s1_size"
        by auto
      then show "a \<in> (\<lambda>i. res_ptr + int i) ` {0..<nat s1_size}"
        by (metis atLeastLessThan_iff image_eqI le0)
    qed
    finally show ?thesis .
  qed
  with run frame src show ?thesis
    by blast
qed

theorem mul_1_frame_witness:
  "1 \<le> (3::int) \<and> disjoint_ranges 10 0 3
   \<and> (\<exists>st. gcry_mpih_mul_1 ((\<lambda>_. 0)(0 := 255, 1 := 255, 2 := 3 :: 8 word)) 10 0 3 255 = Some st
     \<and> (\<forall>a. \<not> (10 \<le> a \<and> a < 10 + 3) \<longrightarrow> mem st a = ((\<lambda>_. 0)(0 := 255, 1 := 255, 2 := 3 :: 8 word)) a)
     \<and> limbs (mem st) 0 (nat 3) = limbs ((\<lambda>_. 0)(0 := 255, 1 := 255, 2 := 3 :: 8 word)) 0 (nat 3)
     \<and> set (stores st) = {10 ..< 10 + 3})"
proof -
  have h1: "1 \<le> (3::int)"
    by simp
  have h2: "disjoint_ranges 10 0 3"
    by (simp add: disjoint_ranges_def)
  show ?thesis
    using h1 h2 mul_1_frame [OF h1 h2] by (intro conjI)
qed

lemma unat_max_limb: "Suc (unat (- 1 :: 'a::len word)) = 2 ^ LENGTH('a)"
  by (simp add: unsigned_minus_1_eq_mask mask_eq_exp_minus_1)

lemma limbs_value_max:
  fixes xs :: "'a::len word list"
  assumes "\<forall>x \<in> set xs. x = - 1"
  shows "Suc (limbs_value xs) = (2 ^ LENGTH('a)) ^ length xs"
  using assms
proof (induction xs)
  case Nil
  show ?case by simp
next
  case (Cons x xs)
  let ?B = "(2::nat) ^ LENGTH('a)"
  have x: "Suc (unat x) = ?B"
    using Cons.prems unat_max_limb [where 'a = 'a] by simp
  have "Suc (limbs_value xs) = ?B ^ length xs"
    using Cons by simp
  then have "?B * Suc (limbs_value xs) = ?B * ?B ^ length xs"
    by simp
  then have "Suc (unat x) + ?B * limbs_value xs = ?B * ?B ^ length xs"
    by (simp add: x)
  then show ?case
    by simp
qed

text \<open>
  The arithmetic of the carry: a product of a value below \<open>P\<close> and a limb leaves a carry
  of at most \<open>B - 2\<close> above \<open>P\<close>, and the greatest operands reach it.
\<close>

lemma carry_bound_arith:
  fixes r c V w M P :: nat
  assumes eq: "r + P * c = V * w" and V: "V < P" and w: "w \<le> M" and M: "0 < M"
  shows "c < M"
proof -
  have "P * c \<le> V * w"
    using eq by simp
  also have "\<dots> \<le> V * M"
    using w by simp
  also have "\<dots> < P * M"
    using V M by simp
  finally show ?thesis
    by simp
qed

lemma carry_max_arith:
  fixes r c V M P :: nat
  assumes eq: "r + P * c = V * M" and V: "Suc V = P" and r: "r < P" and M: "M < P"
    and c: "c < M"
  shows "Suc c = M"
proof -
  have "P * M = Suc V * M"
    by (simp only: V)
  also have "\<dots> = r + P * c + M"
    using eq by simp
  also have "\<dots> < P + P * c + P"
    using r M by simp
  also have "\<dots> = P * (c + 2)"
    by simp
  finally have "P * M < P * (c + 2)" .
  then have "M < c + 2"
    using mult_less_cancel1 by blast
  with c show ?thesis
    by simp
qed

text \<open>
  Claim C3. The returned carry is at most \<open>B - 2\<close>, and it is \<open>B - 2\<close> when the scalar and
  every source limb are the greatest limb \<open>B - 1\<close> (the word \<open>- 1\<close>).
\<close>

theorem mul_1_carry_bound:
  fixes m :: "'a::len memory"
  assumes "1 \<le> s1_size" and "overlap_allowed res_ptr s1_ptr s1_size"
  shows "\<exists>st. gcry_mpih_mul_1 m res_ptr s1_ptr s1_size v = Some st
     \<and> unat (cy_limb st) \<le> 2 ^ LENGTH('a) - 2
     \<and> (v = - 1 \<and> (\<forall>x \<in> set (limbs m s1_ptr (nat s1_size)). x = - 1)
          \<longrightarrow> unat (cy_limb st) = 2 ^ LENGTH('a) - 2)"
proof -
  let ?n = "nat s1_size"
  let ?B = "(2::nat) ^ LENGTH('a)"
  let ?P = "?B ^ ?n"
  let ?V = "limbs_value (limbs m s1_ptr ?n)"
  define M where "M = unat (- 1 :: 'a word)"
  have B: "?B = Suc M"
    by (simp add: M_def unat_max_limb)
  have "(2::nat) ^ 1 \<le> 2 ^ LENGTH('a)"
    by (rule power_increasing) (simp_all add: Suc_leI)
  then have M0: "0 < M"
    using B by simp
  have ov: "res_ptr \<le> s1_ptr \<or> s1_ptr + s1_size \<le> res_ptr"
    using assms by (intro overlap_allowed_cases) simp_all
  from gcry_mpih_mul_1_run [OF assms(1), of m res_ptr s1_ptr v] ov obtain st where
    run: "gcry_mpih_mul_1 m res_ptr s1_ptr s1_size v = Some st"
    and val: "limbs_value (limbs (mem st) res_ptr ?n) + ?P * unat (cy_limb st) = ?V * unat v"
    by blast
  have V: "?V < ?P"
    using limbs_value_bound [of "limbs m s1_ptr ?n"] by simp
  have r: "limbs_value (limbs (mem st) res_ptr ?n) < ?P"
    using limbs_value_bound [of "limbs (mem st) res_ptr ?n"] by simp
  have "unat v < ?B"
    by (rule unsigned_less)
  then have w: "unat v \<le> M"
    by (simp add: B)
  have c: "unat (cy_limb st) < M"
    using val V w M0 by (rule carry_bound_arith)
  then have bound: "unat (cy_limb st) \<le> ?B - 2"
    by (simp add: B)
  have "unat (cy_limb st) = ?B - 2"
    if v: "v = - 1" and S: "\<forall>x \<in> set (limbs m s1_ptr ?n). x = - 1"
  proof -
    have eq: "limbs_value (limbs (mem st) res_ptr ?n) + ?P * unat (cy_limb st) = ?V * M"
      using val by (simp add: v M_def)
    have SV: "Suc ?V = ?P"
      using limbs_value_max [OF S] by simp
    have "?B ^ 1 \<le> ?B ^ ?n"
      using assms(1) by (intro power_increasing) simp_all
    then have MP: "M < ?P"
      by (simp add: B)
    have "Suc (unat (cy_limb st)) = M"
      using eq SV r MP c by (rule carry_max_arith)
    then show ?thesis
      by (simp add: B)
  qed
  with run bound show ?thesis
    by blast
qed

theorem mul_1_carry_bound_witness:
  "1 \<le> (3::int) \<and> overlap_allowed 0 0 3
   \<and> (\<exists>st. gcry_mpih_mul_1 (\<lambda>_. - 1 :: 8 word) 0 0 3 (- 1) = Some st
     \<and> unat (cy_limb st) \<le> 2 ^ LENGTH(8) - 2
     \<and> unat (cy_limb st) = 2 ^ LENGTH(8) - 2)"
proof -
  have h1: "1 \<le> (3::int)"
    by simp
  have h2: "overlap_allowed 0 0 3"
    by (simp add: overlap_allowed_def)
  have h3: "\<forall>x \<in> set (limbs (\<lambda>_. - 1 :: 8 word) 0 (nat 3)). x = - 1"
    by (simp add: limbs_def)
  show ?thesis
    using h1 h2 h3 mul_1_carry_bound [OF h1 h2, of "\<lambda>_. - 1 :: 8 word" "- 1"] by blast
qed

text \<open>
  Claim C4. The call in place, with \<open>res_ptr = s1_ptr\<close>, leaves the same result limbs and
  returns the same carry as a call with a disjoint result buffer on a copy of the same
  source limbs.
\<close>

theorem mul_1_in_place:
  fixes m m' :: "'a::len memory"
  assumes "1 \<le> s1_size" and "disjoint_ranges res_ptr s1_ptr' s1_size"
    and "limbs m' s1_ptr' (nat s1_size) = limbs m s1_ptr (nat s1_size)"
  shows "\<exists>st st'. gcry_mpih_mul_1 m s1_ptr s1_ptr s1_size v = Some st
     \<and> gcry_mpih_mul_1 m' res_ptr s1_ptr' s1_size v = Some st'
     \<and> limbs (mem st) s1_ptr (nat s1_size) = limbs (mem st') res_ptr (nat s1_size)
     \<and> cy_limb st = cy_limb st'"
proof -
  let ?n = "nat s1_size"
  let ?P = "((2::nat) ^ LENGTH('a)) ^ ?n"
  let ?p = "limbs_value (limbs m s1_ptr ?n) * unat v"
  from gcry_mpih_mul_1_run [OF assms(1), of m s1_ptr s1_ptr v] obtain st where
    run: "gcry_mpih_mul_1 m s1_ptr s1_ptr s1_size v = Some st"
    and val: "limbs_value (limbs (mem st) s1_ptr ?n)
        + (2 ^ LENGTH('a)) ^ length (limbs (mem st) s1_ptr ?n) * unat (cy_limb st) = ?p"
    by auto
  have "res_ptr \<le> s1_ptr' \<or> s1_ptr' + s1_size \<le> res_ptr"
    using assms(1,2) by (auto simp: disjoint_ranges_def)
  with gcry_mpih_mul_1_run [OF assms(1), of m' res_ptr s1_ptr' v] obtain st' where
    run': "gcry_mpih_mul_1 m' res_ptr s1_ptr' s1_size v = Some st'"
    and val': "limbs_value (limbs (mem st') res_ptr ?n)
        + (2 ^ LENGTH('a)) ^ length (limbs (mem st') res_ptr ?n) * unat (cy_limb st') = ?p"
    using assms(3) by auto
  have "limbs_value (limbs (mem st) s1_ptr ?n) = limbs_value (limbs (mem st') res_ptr ?n)"
    using mul_1_div_mod(1) [OF val] mul_1_div_mod(1) [OF val'] by simp
  then have R: "limbs (mem st) s1_ptr ?n = limbs (mem st') res_ptr ?n"
    by (intro limbs_value_inj) simp_all
  have "unat (cy_limb st) = unat (cy_limb st')"
    using mul_1_div_mod(2) [OF val] mul_1_div_mod(2) [OF val'] by simp
  then have "cy_limb st = cy_limb st'"
    by (simp add: word_unat_eq_iff)
  with run run' R show ?thesis
    by blast
qed

theorem mul_1_in_place_witness:
  "1 \<le> (3::int) \<and> disjoint_ranges 10 20 3
   \<and> limbs ((\<lambda>_. 0)(20 := 255, 21 := 255, 22 := 3 :: 8 word)) 20 (nat 3)
       = limbs ((\<lambda>_. 0)(0 := 255, 1 := 255, 2 := 3 :: 8 word)) 0 (nat 3)
   \<and> (\<exists>st st'. gcry_mpih_mul_1 ((\<lambda>_. 0)(0 := 255, 1 := 255, 2 := 3 :: 8 word)) 0 0 3 255 = Some st
     \<and> gcry_mpih_mul_1 ((\<lambda>_. 0)(20 := 255, 21 := 255, 22 := 3 :: 8 word)) 10 20 3 255 = Some st'
     \<and> limbs (mem st) 0 (nat 3) = limbs (mem st') 10 (nat 3)
     \<and> cy_limb st = cy_limb st')"
proof -
  have h1: "1 \<le> (3::int)"
    by simp
  have h2: "disjoint_ranges 10 20 3"
    by (simp add: disjoint_ranges_def)
  have h3: "limbs ((\<lambda>_. 0)(20 := 255, 21 := 255, 22 := 3 :: 8 word)) 20 (nat 3)
       = limbs ((\<lambda>_. 0)(0 := 255, 1 := 255, 2 := 3 :: 8 word)) 0 (nat 3)"
    by (simp add: limbs_def)
  show ?thesis
    using h1 h2 h3 mul_1_in_place [OF h1 h2 h3] by (intro conjI)
qed

section \<open>Properties of the harness\<close>

subsection \<open>Steps that only report\<close>

text \<open>
  Reporting steps compose, and every step of the three tests is one: a test changes
  nothing but \<open>out\<close>, \<open>error_count\<close> and the log of calls.
\<close>

lemma reports_only_refl: "reports_only g g"
  by (simp add: reports_only_def)

lemma reports_only_trans:
  assumes "reports_only a b" and "reports_only b c"
  shows "reports_only a c"
proof -
  have b: "b = a\<lparr>out := out b, error_count := error_count b\<rparr>"
    and c: "c = b\<lparr>out := out c, error_count := error_count c\<rparr>"
    using assms by (simp_all add: reports_only_def)
  have "c = a\<lparr>out := out c, error_count := error_count c\<rparr>"
    by (subst c, subst b) simp
  moreover have "error_count a \<le> error_count c"
    using assms by (auto simp: reports_only_def)
  moreover have "\<exists>es. out c = out a @ es"
    using assms by (auto simp: reports_only_def)
  ultimately show ?thesis
    by (simp add: reports_only_def)
qed

lemma reports_only_fail: "reports_only g g1 \<Longrightarrow> reports_only g (fail f a g1)"
  by (erule reports_only_trans) (simp add: reports_only_def fail_def)

lemma reports_only_info: "reports_only g g1 \<Longrightarrow> reports_only g (info f a g1)"
  by (erule reports_only_trans) (simp add: reports_only_def info_def)

lemma reports_only_show_note: "reports_only g g1 \<Longrightarrow> reports_only g (show_note f a g1)"
  by (erule reports_only_trans) (simp add: reports_only_def show_note_def)

lemma reports_only_to_stderr: "reports_only g g1 \<Longrightarrow> reports_only g (to_stderr s g1)"
  by (erule reports_only_trans) (simp add: reports_only_def to_stderr_def)

lemma reports_only_fold_stderr:
  "reports_only g g1 \<Longrightarrow> reports_only g (fold (\<lambda>b. to_stderr (f b)) bs g1)"
  by (induction bs arbitrary: g1) (simp_all add: reports_only_to_stderr)

lemma reports_only_dump: "reports_only g g1 \<Longrightarrow> reports_only g (dump label buf len g1)"
  by (simp add: dump_def reports_only_to_stderr reports_only_fold_stderr)

lemma reports_only_check_output:
  "reports_only g g1 \<Longrightarrow> reports_only g (check_output t lc lk computed knownans len g1)"
  by (simp add: check_output_def reports_only_dump reports_only_fail)

lemma reports_only_running_test: "reports_only g g1 \<Longrightarrow> reports_only g (running_test t g1)"
  by (simp add: running_test_def reports_only_info)

lemma reports_only_error_preparing:
  "reports_only g g1 \<Longrightarrow> reports_only g (error_preparing t what why g1)"
  by (simp add: error_preparing_def reports_only_fail)

lemmas reports_only_intros =
  reports_only_refl reports_only_fail reports_only_info reports_only_show_note
  reports_only_to_stderr reports_only_dump reports_only_check_output
  reports_only_running_test reports_only_error_preparing

lemma reports_only_decap:
  "reports_only (g\<lparr>calls := calls g @ [DECAP_TEST t a s c x]\<rparr>) (one_decap_test api t a s c x g)"
  by (simp add: one_decap_test_def Let_def reports_only_intros split: option.splits prod.splits)

lemma reports_only_encap:
  "reports_only (g\<lparr>calls := calls g @ [ENCAP_TEST t a p c x y]\<rparr>) (one_encap_test api t a p c x y g)"
  by (simp add: one_encap_test_def Let_def reports_only_intros split: option.splits prod.splits)

lemma reports_only_genkey:
  "reports_only (g\<lparr>calls := calls g @ [GENKEY_TEST t a z d s p]\<rparr>) (one_genkey_test api t a z d s p g)"
  by (simp add: one_genkey_test_def Let_def reports_only_intros split: option.splits prod.splits)

subsection \<open>The fields of the state\<close>

text \<open>
  Two states with the same \<open>core\<close> agree on every field but \<open>out\<close> and \<open>error_count\<close>; so
  a reporting step leaves all other fields as they were.
\<close>

lemma reports_only_core: "reports_only g g' \<Longrightarrow> core g' = core g"
proof -
  assume "reports_only g g'"
  then have eq: "g' = g\<lparr>out := out g', error_count := error_count g'\<rparr>"
    by (simp add: reports_only_def)
  show ?thesis
    using arg_cong [OF eq, of core] by (simp add: core_def)
qed

lemma core_fields [simp]:
  "calls (core g) = calls g" "verbose (core g) = verbose g"
  "custom_data_file (core g) = custom_data_file g"
  "algo (core st) = algo st" "testno (core st) = testno st" "ntests (core st) = ntests st"
  "sk_str (core st) = sk_str st" "pk_str (core st) = pk_str st" "ct_str (core st) = ct_str st"
  "ss_str (core st) = ss_str st" "coins_str (core st) = coins_str st"
  "z_str (core st) = z_str st" "d_str (core st) = d_str st"
  by (simp_all add: core_def)

lemma core_eq_fields:
  assumes "core st' = core st"
  shows "calls st' = calls st" "verbose st' = verbose st"
    "custom_data_file st' = custom_data_file st"
    "algo st' = algo st" "testno st' = testno st" "ntests st' = ntests st"
    "sk_str st' = sk_str st" "pk_str st' = pk_str st" "ct_str st' = ct_str st"
    "ss_str st' = ss_str st" "coins_str st' = coins_str st"
    "z_str st' = z_str st" "d_str st' = d_str st"
  using arg_cong [OF assms, of calls] arg_cong [OF assms, of verbose]
    arg_cong [OF assms, of custom_data_file]
    arg_cong [OF assms, of algo] arg_cong [OF assms, of testno] arg_cong [OF assms, of ntests]
    arg_cong [OF assms, of sk_str] arg_cong [OF assms, of pk_str] arg_cong [OF assms, of ct_str]
    arg_cong [OF assms, of ss_str] arg_cong [OF assms, of coins_str]
    arg_cong [OF assms, of z_str] arg_cong [OF assms, of d_str]
  by simp_all

lemmas reports_only_fields = core_eq_fields [OF reports_only_core]

lemma reports_only_error_count: "reports_only g g' \<Longrightarrow> error_count g \<le> error_count g'"
  by (simp add: reports_only_def)

lemmas one_decap_test_fields =
  reports_only_fields [OF reports_only_decap, simplified]
lemmas one_encap_test_fields =
  reports_only_fields [OF reports_only_encap, simplified]
lemmas one_genkey_test_fields =
  reports_only_fields [OF reports_only_genkey, simplified]

lemma count_test_fields:
  "calls (count_test st) = calls st" "verbose (count_test st) = verbose st"
  "custom_data_file (count_test st) = custom_data_file st"
  "error_count (count_test st) = error_count st"
  "algo (count_test st) = algo st" "testno (count_test st) = testno st"
  "ntests (count_test st) = ntests st + 1"
  "sk_str (count_test st) = sk_str st" "pk_str (count_test st) = pk_str st"
  "ct_str (count_test st) = ct_str st" "ss_str (count_test st) = ss_str st"
  "coins_str (count_test st) = coins_str st"
  "z_str (count_test st) = z_str st" "d_str (count_test st) = d_str st"
  by (simp_all add: count_test_def Let_def show_note_def)


subsection \<open>The test that a complete record selects\<close>

text \<open>Lines 433 to 468 in terms of the three field sets of the spec.\<close>

lemma run_complete_record_cases:
  "run_complete_record api st =
     (if decap_complete st
      then
        let st = st\<lparr>testno := testno st + 1\<rparr>;
            st = one_decap_test api (testno st) (algo st)
                   (the (sk_str st)) (the (ct_str st)) (the (ss_str st)) st;
            st = count_test st
        in st\<lparr>pk_str := None, sk_str := None, ct_str := None, ss_str := None\<rparr>
      else if encap_complete st
      then
        let st = st\<lparr>testno := testno st + 1\<rparr>;
            st = one_encap_test api (testno st) (algo st)
                   (the (pk_str st)) (the (coins_str st)) (the (ct_str st)) (the (ss_str st)) st;
            st = count_test st
        in st\<lparr>pk_str := None, coins_str := None, ct_str := None, ss_str := None\<rparr>
      else if genkey_complete st
      then
        let st = st\<lparr>testno := testno st + 1\<rparr>;
            st = one_genkey_test api (testno st) (algo st)
                   (the (z_str st)) (the (d_str st)) (the (sk_str st)) (the (pk_str st)) st;
            st = count_test st
        in st\<lparr>pk_str := None, sk_str := None, z_str := None, d_str := None\<rparr>
      else st)"
  by (simp only: run_complete_record_def decap_complete_def encap_complete_def
      genkey_complete_def)

lemma run_decap:
  assumes "decap_complete st"
  shows "calls (run_complete_record api st) =
           calls st @ [DECAP_TEST (testno st + 1) (algo st)
                        (the (sk_str st)) (the (ct_str st)) (the (ss_str st))]"
    and "pk_str (run_complete_record api st) = None"
    and "sk_str (run_complete_record api st) = None"
    and "ct_str (run_complete_record api st) = None"
    and "ss_str (run_complete_record api st) = None"
    and "coins_str (run_complete_record api st) = coins_str st"
    and "z_str (run_complete_record api st) = z_str st"
    and "d_str (run_complete_record api st) = d_str st"
    and "testno (run_complete_record api st) = testno st + 1"
    and "ntests (run_complete_record api st) = ntests st + 1"
    and "algo (run_complete_record api st) = algo st"
  using assms
  by (simp_all add: run_complete_record_cases Let_def count_test_fields one_decap_test_fields)

lemma run_encap:
  assumes "\<not> decap_complete st" and "encap_complete st"
  shows "calls (run_complete_record api st) =
           calls st @ [ENCAP_TEST (testno st + 1) (algo st)
                        (the (pk_str st)) (the (coins_str st)) (the (ct_str st)) (the (ss_str st))]"
    and "pk_str (run_complete_record api st) = None"
    and "coins_str (run_complete_record api st) = None"
    and "ct_str (run_complete_record api st) = None"
    and "ss_str (run_complete_record api st) = None"
    and "sk_str (run_complete_record api st) = sk_str st"
    and "z_str (run_complete_record api st) = z_str st"
    and "d_str (run_complete_record api st) = d_str st"
    and "testno (run_complete_record api st) = testno st + 1"
    and "ntests (run_complete_record api st) = ntests st + 1"
    and "algo (run_complete_record api st) = algo st"
  using assms
  by (simp_all add: run_complete_record_cases Let_def count_test_fields one_encap_test_fields)

lemma run_genkey:
  assumes "\<not> decap_complete st" and "\<not> encap_complete st" and "genkey_complete st"
  shows "calls (run_complete_record api st) =
           calls st @ [GENKEY_TEST (testno st + 1) (algo st)
                        (the (z_str st)) (the (d_str st)) (the (sk_str st)) (the (pk_str st))]"
    and "pk_str (run_complete_record api st) = None"
    and "sk_str (run_complete_record api st) = None"
    and "z_str (run_complete_record api st) = None"
    and "d_str (run_complete_record api st) = None"
    and "ct_str (run_complete_record api st) = ct_str st"
    and "ss_str (run_complete_record api st) = ss_str st"
    and "coins_str (run_complete_record api st) = coins_str st"
    and "testno (run_complete_record api st) = testno st + 1"
    and "ntests (run_complete_record api st) = ntests st + 1"
    and "algo (run_complete_record api st) = algo st"
  using assms
  by (simp_all add: run_complete_record_cases Let_def count_test_fields one_genkey_test_fields)

lemma run_none:
  assumes "\<not> decap_complete st" and "\<not> encap_complete st" and "\<not> genkey_complete st"
  shows "run_complete_record api st = st"
  using assms
  by (simp add: run_complete_record_cases)

lemma run_no_public_key: "pk_str st = None \<Longrightarrow> run_complete_record api st = st"
  by (simp add: run_complete_record_def)

lemma run_leaves_no_public_key:
  "decap_complete st \<or> encap_complete st \<or> genkey_complete st \<Longrightarrow>
   pk_str (run_complete_record api st) = None"
  using run_decap(2) [of st api] run_encap(2) [of st api] run_genkey(2) [of st api] by blast

lemma run_incomplete:
  "\<not> decap_complete (run_complete_record api st)"
  "\<not> encap_complete (run_complete_record api st)"
  "\<not> genkey_complete (run_complete_record api st)"
proof -
  consider "decap_complete st \<or> encap_complete st \<or> genkey_complete st"
    | "\<not> decap_complete st" "\<not> encap_complete st" "\<not> genkey_complete st"
    by blast
  then have "\<not> decap_complete (run_complete_record api st)
      \<and> \<not> encap_complete (run_complete_record api st)
      \<and> \<not> genkey_complete (run_complete_record api st)"
  proof cases
    case 1
    then have "pk_str (run_complete_record api st) = None"
      by (rule run_leaves_no_public_key)
    then show ?thesis
      by (simp add: decap_complete_def encap_complete_def genkey_complete_def)
  next
    case 2
    then show ?thesis
      by (simp add: run_none)
  qed
  then show "\<not> decap_complete (run_complete_record api st)"
    "\<not> encap_complete (run_complete_record api st)"
    "\<not> genkey_complete (run_complete_record api st)"
    by simp_all
qed

subsection \<open>The iterations of the loop\<close>

text \<open>The state after a nonempty list of lines is the state after an iteration.\<close>

lemma kat_loop_append:
  "kat_loop api (ls @ ls') st = kat_loop api ls' (kat_loop api ls st)"
  by (induction ls arbitrary: st) simp_all

lemma kat_loop_incomplete:
  assumes "lines \<noteq> []"
  shows "\<not> decap_complete (kat_loop api lines st)
     \<and> \<not> encap_complete (kat_loop api lines st)
     \<and> \<not> genkey_complete (kat_loop api lines st)"
proof -
  obtain ls l where "lines = ls @ [l]"
    using assms by (metis rev_exhaust)
  then have "kat_loop api lines st
      = run_complete_record api (process_line api (fst l) (snd l) (kat_loop api ls st))"
    by (simp add: kat_loop_append kat_iteration_def)
  then show ?thesis
    by (simp only: run_incomplete simp_thms)
qed

text \<open>
  Claim C7. In an iteration of the loop, with \<open>st1\<close> the state after the line is processed
  and \<open>st2\<close> the state at the end of the iteration: if public key, secret key, ciphertext
  and shared secret are all populated in \<open>st1\<close>, a decapsulation test is called with them
  and exactly these four fields are reset; otherwise, if public key, coins, ciphertext and
  shared secret are populated, an encapsulation test is called and these four are reset;
  otherwise, if secret key, public key, \<open>z\<close> and \<open>d\<close> are populated, a key-generation test is
  called and these four are reset; otherwise nothing happens. At the end of every
  iteration, and so after any number of lines, none of the three field sets is complete.
\<close>

theorem kat_iteration_dispatch:
  "let st1 = process_line api line lineno st;
       st2 = kat_iteration api (line, lineno) st
   in (decap_complete st1 \<longrightarrow>
         calls st2 = calls st1 @ [DECAP_TEST (testno st1 + 1) (algo st1)
                                   (the (sk_str st1)) (the (ct_str st1)) (the (ss_str st1))]
         \<and> pk_str st2 = None \<and> sk_str st2 = None \<and> ct_str st2 = None \<and> ss_str st2 = None
         \<and> coins_str st2 = coins_str st1 \<and> z_str st2 = z_str st1 \<and> d_str st2 = d_str st1)
    \<and> (\<not> decap_complete st1 \<and> encap_complete st1 \<longrightarrow>
         calls st2 = calls st1 @ [ENCAP_TEST (testno st1 + 1) (algo st1)
                                   (the (pk_str st1)) (the (coins_str st1))
                                   (the (ct_str st1)) (the (ss_str st1))]
         \<and> pk_str st2 = None \<and> coins_str st2 = None \<and> ct_str st2 = None \<and> ss_str st2 = None
         \<and> sk_str st2 = sk_str st1 \<and> z_str st2 = z_str st1 \<and> d_str st2 = d_str st1)
    \<and> (\<not> decap_complete st1 \<and> \<not> encap_complete st1 \<and> genkey_complete st1 \<longrightarrow>
         calls st2 = calls st1 @ [GENKEY_TEST (testno st1 + 1) (algo st1)
                                   (the (z_str st1)) (the (d_str st1))
                                   (the (sk_str st1)) (the (pk_str st1))]
         \<and> pk_str st2 = None \<and> sk_str st2 = None \<and> z_str st2 = None \<and> d_str st2 = None
         \<and> ct_str st2 = ct_str st1 \<and> ss_str st2 = ss_str st1 \<and> coins_str st2 = coins_str st1)
    \<and> (\<not> decap_complete st1 \<and> \<not> encap_complete st1 \<and> \<not> genkey_complete st1 \<longrightarrow>
         st2 = st1)
    \<and> \<not> decap_complete st2 \<and> \<not> encap_complete st2 \<and> \<not> genkey_complete st2
    \<and> (\<forall>lines. lines \<noteq> [] \<longrightarrow>
          \<not> decap_complete (kat_loop api lines st)
          \<and> \<not> encap_complete (kat_loop api lines st)
          \<and> \<not> genkey_complete (kat_loop api lines st))"
proof -
  define st1 where "st1 = process_line api line lineno st"
  define st2 where "st2 = run_complete_record api st1"
  have "decap_complete st1 \<longrightarrow>
         calls st2 = calls st1 @ [DECAP_TEST (testno st1 + 1) (algo st1)
                                   (the (sk_str st1)) (the (ct_str st1)) (the (ss_str st1))]
         \<and> pk_str st2 = None \<and> sk_str st2 = None \<and> ct_str st2 = None \<and> ss_str st2 = None
         \<and> coins_str st2 = coins_str st1 \<and> z_str st2 = z_str st1 \<and> d_str st2 = d_str st1"
    unfolding st2_def by (simp add: run_decap)
  moreover have "\<not> decap_complete st1 \<and> encap_complete st1 \<longrightarrow>
         calls st2 = calls st1 @ [ENCAP_TEST (testno st1 + 1) (algo st1)
                                   (the (pk_str st1)) (the (coins_str st1))
                                   (the (ct_str st1)) (the (ss_str st1))]
         \<and> pk_str st2 = None \<and> coins_str st2 = None \<and> ct_str st2 = None \<and> ss_str st2 = None
         \<and> sk_str st2 = sk_str st1 \<and> z_str st2 = z_str st1 \<and> d_str st2 = d_str st1"
    unfolding st2_def by (simp add: run_encap)
  moreover have "\<not> decap_complete st1 \<and> \<not> encap_complete st1 \<and> genkey_complete st1 \<longrightarrow>
         calls st2 = calls st1 @ [GENKEY_TEST (testno st1 + 1) (algo st1)
                                   (the (z_str st1)) (the (d_str st1))
                                   (the (sk_str st1)) (the (pk_str st1))]
         \<and> pk_str st2 = None \<and> sk_str st2 = None \<and> z_str st2 = None \<and> d_str st2 = None
         \<and> ct_str st2 = ct_str st1 \<and> ss_str st2 = ss_str st1 \<and> coins_str st2 = coins_str st1"
    unfolding st2_def by (simp add: run_genkey)
  moreover have "\<not> decap_complete st1 \<and> \<not> encap_complete st1 \<and> \<not> genkey_complete st1 \<longrightarrow>
         st2 = st1"
    unfolding st2_def by (simp add: run_none)
  moreover have "\<not> decap_complete st2" "\<not> encap_complete st2" "\<not> genkey_complete st2"
    unfolding st2_def by (rule run_incomplete)+
  moreover have "\<forall>lines. lines \<noteq> [] \<longrightarrow>
          \<not> decap_complete (kat_loop api lines st)
          \<and> \<not> encap_complete (kat_loop api lines st)
          \<and> \<not> genkey_complete (kat_loop api lines st)"
    using kat_loop_incomplete by blast
  ultimately show ?thesis
    unfolding Let_def kat_iteration_def fst_conv snd_conv st2_def st1_def
    by (intro conjI)
qed

text \<open>The definitions that evaluate the processing of a concrete line.\<close>

lemmas kat_eval =
  process_line_def strncmp_eq_def copy_data_def strchr_def isspace_def kat_state0_def
  globals0_def globals.extend_def kat_state.fields_def case_prod_beta
  decap_complete_def encap_complete_def genkey_complete_def

theorem kat_iteration_dispatch_witness:
  "decap_complete (process_line zero_kem ''Shared Secret A: 00'' 4
      (kat_state0\<lparr>pk_str := Some ''01'', sk_str := Some ''02'', ct_str := Some ''03''\<rparr>))
   \<and> calls (kat_iteration zero_kem (''Shared Secret A: 00'', 4)
      (kat_state0\<lparr>pk_str := Some ''01'', sk_str := Some ''02'', ct_str := Some ''03''\<rparr>))
       = [DECAP_TEST 1 0 ''02'' ''03'' ''00'']
   \<and> \<not> decap_complete (process_line zero_kem ''k: 00'' 4
      (kat_state0\<lparr>pk_str := Some ''01'', coins_str := Some ''02'', ct_str := Some ''03''\<rparr>))
   \<and> encap_complete (process_line zero_kem ''k: 00'' 4
      (kat_state0\<lparr>pk_str := Some ''01'', coins_str := Some ''02'', ct_str := Some ''03''\<rparr>))
   \<and> calls (kat_iteration zero_kem (''k: 00'', 4)
      (kat_state0\<lparr>pk_str := Some ''01'', coins_str := Some ''02'', ct_str := Some ''03''\<rparr>))
       = [ENCAP_TEST 1 0 ''01'' ''02'' ''03'' ''00'']
   \<and> \<not> decap_complete (process_line zero_kem ''d: 00'' 4
      (kat_state0\<lparr>pk_str := Some ''01'', sk_str := Some ''02'', z_str := Some ''03''\<rparr>))
   \<and> \<not> encap_complete (process_line zero_kem ''d: 00'' 4
      (kat_state0\<lparr>pk_str := Some ''01'', sk_str := Some ''02'', z_str := Some ''03''\<rparr>))
   \<and> genkey_complete (process_line zero_kem ''d: 00'' 4
      (kat_state0\<lparr>pk_str := Some ''01'', sk_str := Some ''02'', z_str := Some ''03''\<rparr>))
   \<and> calls (kat_iteration zero_kem (''d: 00'', 4)
      (kat_state0\<lparr>pk_str := Some ''01'', sk_str := Some ''02'', z_str := Some ''03''\<rparr>))
       = [GENKEY_TEST 1 0 ''03'' ''00'' ''02'' ''01'']"
proof -
  let ?D = "kat_state0\<lparr>pk_str := Some ''01'', sk_str := Some ''02'', ct_str := Some ''03''\<rparr>"
  let ?E = "kat_state0\<lparr>pk_str := Some ''01'', coins_str := Some ''02'', ct_str := Some ''03''\<rparr>"
  let ?G = "kat_state0\<lparr>pk_str := Some ''01'', sk_str := Some ''02'', z_str := Some ''03''\<rparr>"
  have d: "decap_complete (process_line zero_kem ''Shared Secret A: 00'' 4 ?D)"
    by (simp add: kat_eval)
  have e: "\<not> decap_complete (process_line zero_kem ''k: 00'' 4 ?E)"
    "encap_complete (process_line zero_kem ''k: 00'' 4 ?E)"
    by (simp_all add: kat_eval)
  have g: "\<not> decap_complete (process_line zero_kem ''d: 00'' 4 ?G)"
    "\<not> encap_complete (process_line zero_kem ''d: 00'' 4 ?G)"
    "genkey_complete (process_line zero_kem ''d: 00'' 4 ?G)"
    by (simp_all add: kat_eval)
  have "calls (kat_iteration zero_kem (''Shared Secret A: 00'', 4) ?D)
       = [DECAP_TEST 1 0 ''02'' ''03'' ''00'']"
  proof -
    let ?st1 = "process_line zero_kem ''Shared Secret A: 00'' 4 ?D"
    note kat_iteration_dispatch [of zero_kem "''Shared Secret A: 00''" 4 ?D, unfolded Let_def,
        THEN conjunct1, THEN mp, OF d, THEN conjunct1]
    also have "calls ?st1 @ [DECAP_TEST (testno ?st1 + 1) (algo ?st1)
        (the (sk_str ?st1)) (the (ct_str ?st1)) (the (ss_str ?st1))]
        = [DECAP_TEST 1 0 ''02'' ''03'' ''00'']"
      by (simp add: kat_eval)
    finally show ?thesis .
  qed
  moreover have "calls (kat_iteration zero_kem (''k: 00'', 4) ?E)
       = [ENCAP_TEST 1 0 ''01'' ''02'' ''03'' ''00'']"
  proof -
    let ?st1 = "process_line zero_kem ''k: 00'' 4 ?E"
    note kat_iteration_dispatch [of zero_kem "''k: 00''" 4 ?E, unfolded Let_def,
        THEN conjunct2, THEN conjunct1, THEN mp, OF conjI [OF e], THEN conjunct1]
    also have "calls ?st1 @ [ENCAP_TEST (testno ?st1 + 1) (algo ?st1)
        (the (pk_str ?st1)) (the (coins_str ?st1)) (the (ct_str ?st1)) (the (ss_str ?st1))]
        = [ENCAP_TEST 1 0 ''01'' ''02'' ''03'' ''00'']"
      by (simp add: kat_eval)
    finally show ?thesis .
  qed
  moreover have "calls (kat_iteration zero_kem (''d: 00'', 4) ?G)
       = [GENKEY_TEST 1 0 ''03'' ''00'' ''02'' ''01'']"
  proof -
    let ?st1 = "process_line zero_kem ''d: 00'' 4 ?G"
    note kat_iteration_dispatch [of zero_kem "''d: 00''" 4 ?G, unfolded Let_def,
        THEN conjunct2, THEN conjunct2, THEN conjunct1, THEN mp,
        OF conjI [OF g(1) conjI [OF g(2) g(3)]], THEN conjunct1]
    also have "calls ?st1 @ [GENKEY_TEST (testno ?st1 + 1) (algo ?st1)
        (the (z_str ?st1)) (the (d_str ?st1)) (the (sk_str ?st1)) (the (pk_str ?st1))]
        = [GENKEY_TEST 1 0 ''03'' ''00'' ''02'' ''01'']"
      by (simp add: kat_eval)
    finally show ?thesis .
  qed
  ultimately show ?thesis
    using d e g by (intro conjI)
qed

text \<open>
  \<open>copy_data\<close> and \<open>parse_annotation\<close> only report, so a line changes the one field of its
  tag and no other; only the two public-key tags change \<open>pk_str\<close>.
\<close>

lemma copy_data_reports: "reports_only g (snd (copy_data line lineno g))"
  by (simp add: copy_data_def reports_only_intros split: option.splits)

lemma parse_annotation_reports: "reports_only g (snd (parse_annotation api line lineno g))"
  by (simp add: parse_annotation_def Let_def reports_only_intros split: option.splits)

lemmas copy_data_fields = reports_only_fields [OF copy_data_reports]
lemmas parse_annotation_fields = reports_only_fields [OF parse_annotation_reports]

lemma fail_fields:
  "calls (fail f a st) = calls st" "verbose (fail f a st) = verbose st"
  "custom_data_file (fail f a st) = custom_data_file st"
  "algo (fail f a st) = algo st" "testno (fail f a st) = testno st"
  "ntests (fail f a st) = ntests st"
  "sk_str (fail f a st) = sk_str st" "pk_str (fail f a st) = pk_str st"
  "ct_str (fail f a st) = ct_str st" "ss_str (fail f a st) = ss_str st"
  "coins_str (fail f a st) = coins_str st"
  "z_str (fail f a st) = z_str st" "d_str (fail f a st) = d_str st"
  by (simp_all add: fail_def)

lemma process_line_public_key:
  "\<not> public_key_line line \<Longrightarrow> pk_str (process_line api line lineno st) = pk_str st"
  by (simp add: process_line_def public_key_line_def case_prod_beta
      copy_data_fields parse_annotation_fields fail_fields)

lemma process_line_calls: "calls (process_line api line lineno st) = calls st"
  by (simp add: process_line_def case_prod_beta
      copy_data_fields parse_annotation_fields fail_fields)

lemma kat_loop_no_public_key:
  assumes "\<forall>l \<in> set lines. \<not> public_key_line (fst l)" and "pk_str st = None"
  shows "calls (kat_loop api lines st) = calls st \<and> pk_str (kat_loop api lines st) = None"
  using assms
proof (induction lines arbitrary: st)
  case Nil
  then show ?case by simp
next
  case (Cons l ls)
  let ?st1 = "process_line api (fst l) (snd l) st"
  have pk: "pk_str ?st1 = None"
    using Cons.prems by (simp add: process_line_public_key)
  then have it: "kat_iteration api l st = ?st1"
    by (simp add: kat_iteration_def run_no_public_key)
  have "calls (kat_loop api ls ?st1) = calls ?st1 \<and> pk_str (kat_loop api ls ?st1) = None"
    using Cons.prems pk by (intro Cons.IH) simp_all
  then show ?case
    by (simp add: it process_line_calls)
qed

text \<open>
  Claim C10. No test is dispatched while the public-key field is empty; in particular a
  decapsulation test, which gets only secret key, ciphertext and shared secret, is
  called only when the public key is populated too. Lines none of which populates the
  public key, read from a state where it is empty, run no test at all, whatever secret
  key, ciphertext and shared secret they supply.
\<close>

theorem decap_requires_public_key:
  "(pk_str st = None \<longrightarrow> run_complete_record api st = st)
   \<and> (calls (run_complete_record api st) = calls st @ [DECAP_TEST t a s c x]
        \<longrightarrow> pk_str st \<noteq> None)
   \<and> ((\<forall>l \<in> set lines. \<not> public_key_line (fst l)) \<and> pk_str st = None
        \<longrightarrow> calls (kat_loop api lines st) = calls st
          \<and> pk_str (kat_loop api lines st) = None)"
proof (intro conjI impI)
  assume "pk_str st = None"
  then show "run_complete_record api st = st"
    by (rule run_no_public_key)
next
  assume c: "calls (run_complete_record api st) = calls st @ [DECAP_TEST t a s c x]"
  show "pk_str st \<noteq> None"
  proof
    assume "pk_str st = None"
    then have "run_complete_record api st = st"
      by (rule run_no_public_key)
    with c show False
      by simp
  qed
next
  assume "(\<forall>l \<in> set lines. \<not> public_key_line (fst l)) \<and> pk_str st = None"
  then show "calls (kat_loop api lines st) = calls st"
    and "pk_str (kat_loop api lines st) = None"
    using kat_loop_no_public_key [of lines st api] by simp_all
qed


theorem decap_requires_public_key_witness:
  "\<not> public_key_line ''Secret Key: 00'' \<and> \<not> public_key_line ''Ciphertext: 00''
   \<and> \<not> public_key_line ''Shared Secret A: 00''
   \<and> pk_str kat_state0 = None
   \<and> calls (kat_loop zero_kem
        [(''Secret Key: 00'', 1), (''Ciphertext: 00'', 2), (''Shared Secret A: 00'', 3)]
        kat_state0) = calls kat_state0
   \<and> pk_str (kat_loop zero_kem
        [(''Secret Key: 00'', 1), (''Ciphertext: 00'', 2), (''Shared Secret A: 00'', 3)]
        kat_state0) = None"
proof -
  have h: "\<not> public_key_line ''Secret Key: 00''" "\<not> public_key_line ''Ciphertext: 00''"
    "\<not> public_key_line ''Shared Secret A: 00''"
    by (simp_all add: public_key_line_def strncmp_eq_def)
  then have h1: "\<forall>l \<in> set [(''Secret Key: 00'', 1::int), (''Ciphertext: 00'', 2),
        (''Shared Secret A: 00'', 3)]. \<not> public_key_line (fst l)"
    by simp
  have h2: "pk_str kat_state0 = None"
    by (simp add: kat_state0_def globals.extend_def kat_state.fields_def)
  have r: "calls (kat_loop zero_kem
        [(''Secret Key: 00'', 1), (''Ciphertext: 00'', 2), (''Shared Secret A: 00'', 3)]
        kat_state0) = calls kat_state0
      \<and> pk_str (kat_loop zero_kem
        [(''Secret Key: 00'', 1), (''Ciphertext: 00'', 2), (''Shared Secret A: 00'', 3)]
        kat_state0) = None"
    by (rule mp [OF conjunct2 [OF conjunct2 [OF decap_requires_public_key]]])
      (rule conjI [OF h1 h2])
  show ?thesis
    by (intro conjI h h2 conjunct1 [OF r] conjunct2 [OF r])
qed

subsection \<open>\<open>parse_annotation\<close>\<close>














subsection \<open>Lines with an unknown tag\<close>

text \<open>The count of errors never goes down in the loop.\<close>

lemma error_count_process_line:
  "error_count st \<le> error_count (process_line api line lineno st)"
  using reports_only_error_count [OF copy_data_reports, of st line lineno]
    reports_only_error_count [OF parse_annotation_reports, of st api line lineno]
  by (simp add: process_line_def case_prod_beta fail_def)

lemma error_count_run_complete_record:
  "error_count st \<le> error_count (run_complete_record api st)"
  using
    reports_only_error_count [OF reports_only_decap,
      of "st\<lparr>testno := testno st + 1\<rparr>" "testno st + 1" "algo st"
         "the (sk_str st)" "the (ct_str st)" "the (ss_str st)" api]
    reports_only_error_count [OF reports_only_encap,
      of "st\<lparr>testno := testno st + 1\<rparr>" "testno st + 1" "algo st"
         "the (pk_str st)" "the (coins_str st)" "the (ct_str st)" "the (ss_str st)" api]
    reports_only_error_count [OF reports_only_genkey,
      of "st\<lparr>testno := testno st + 1\<rparr>" "testno st + 1" "algo st"
         "the (z_str st)" "the (d_str st)" "the (sk_str st)" "the (pk_str st)" api]
  by (simp add: run_complete_record_cases Let_def count_test_fields)

lemma error_count_kat_iteration:
  "error_count st \<le> error_count (kat_iteration api l st)"
  using error_count_process_line [of st api "fst l" "snd l"]
    error_count_run_complete_record [of "process_line api (fst l) (snd l) st" api]
  by (simp add: kat_iteration_def)

lemma error_count_kat_loop: "error_count st \<le> error_count (kat_loop api ls st)"
proof (induction ls arbitrary: st)
  case Nil
  show ?case by simp
next
  case (Cons l ls)
  have "error_count st \<le> error_count (kat_iteration api l st)"
    by (rule error_count_kat_iteration)
  also have "\<dots> \<le> error_count (kat_loop api ls (kat_iteration api l st))"
    by (rule Cons.IH)
  finally show ?case
    by simp
qed

text \<open>A line with none of the tags takes the last branch of the chain.\<close>

lemma process_line_unrecognized:
  assumes "\<not> recognized line"
  shows "process_line api line lineno st
    = fail ''unknown tag at input line %d'' [Arg_d lineno] st"
  proof -
  have "\<not> strncmp_eq line ''['' 1" "\<not> strncmp_eq line ''Public Key:'' 11"
    "\<not> strncmp_eq line ''Secret Key:'' 11" "\<not> strncmp_eq line ''Ciphertext:'' 11"
    "\<not> strncmp_eq line ''Shared Secret A:'' 16" "\<not> strncmp_eq line ''Shared Secret B:'' 16"
    "\<not> strncmp_eq line ''Pseudorandom'' 12" "\<not> strncmp_eq line ''ek:'' 3"
    "\<not> strncmp_eq line ''m:'' 2" "\<not> strncmp_eq line ''c:'' 2"
    "\<not> strncmp_eq line ''k:'' 2" "\<not> strncmp_eq line ''z:'' 2"
    "\<not> strncmp_eq line ''d:'' 2" "\<not> strncmp_eq line ''dk:'' 3"
    using assms by (simp_all add: recognized_def recognized_tags_def)
  then show ?thesis
    by (simp only: process_line_def if_False)
qed

lemma error_count_unrecognized:
  assumes "\<not> recognized line"
  shows "error_count st < error_count (kat_loop api ((line, lineno) # rest) st)"
proof -
  let ?st1 = "fail ''unknown tag at input line %d'' [Arg_d lineno] st"
  have "error_count st < error_count ?st1"
    by (simp add: fail_def)
  also have "\<dots> \<le> error_count (run_complete_record api ?st1)"
    by (rule error_count_run_complete_record)
  also have "\<dots> \<le> error_count (kat_loop api rest (run_complete_record api ?st1))"
    by (rule error_count_kat_loop)
  finally show ?thesis
    by (simp add: kat_iteration_def process_line_unrecognized [OF assms])
qed

text \<open>With an open file \<open>check_mlkem_kat\<close> returns, and keeps the errors of its loop.\<close>

lemma check_mlkem_kat_error_count:
  "\<exists>g1. check_mlkem_kat api a (Some lines) g = Some g1
     \<and> error_count (kat_loop api lines
           (globals.extend (info (''Checking ML-KEM.'' @ [CHR 0x0A]) [] g)
             (kat_state.fields a 0 0 None None None None None None None)))
         \<le> error_count g1"
proof -
  define st where "st = kat_loop api lines
           (globals.extend (info (''Checking ML-KEM.'' @ [CHR 0x0A]) [] g)
             (kat_state.fields a 0 0 None None None None None None None))"
  define st' where "st' = (if ntests st \<noteq> N_TESTS \<and> custom_data_file st = 0
                       then fail ''did %d tests but expected %d''
                              [Arg_d (ntests st), Arg_d N_TESTS] st
                       else if ntests st mod 256 \<noteq> 0
                       then show_note (''%d tests done'' @ [CHR 0x0A]) [Arg_d (ntests st)] st
                       else st)"
  have "check_mlkem_kat api a (Some lines) g = Some (globals.truncate st')"
    by (simp add: check_mlkem_kat_def Let_def st'_def st_def)
  moreover have "error_count st \<le> error_count st'"
    by (simp add: st'_def fail_def show_note_def)
  moreover have "error_count (globals.truncate st') = error_count st'"
    by (simp add: globals.truncate_def)
  ultimately show ?thesis
    unfolding st_def by auto
qed

lemma main_run_status:
  assumes "\<not> recognized line" and "0 \<le> error_count g"
  shows "\<exists>g'. main_run api a (Some (pre @ (line, lineno) # rest)) e g = Some (1, g')"
proof -
  let ?g0 = "info (''Checking ML-KEM.'' @ [CHR 0x0A]) [] g"
  let ?init = "globals.extend ?g0
      (kat_state.fields a 0 0 None None None None None None None)"
  let ?st = "kat_loop api (pre @ (line, lineno) # rest) ?init"
  have "0 \<le> error_count ?init"
    using assms(2) by (simp add: info_def globals.extend_def)
  also have "\<dots> \<le> error_count (kat_loop api pre ?init)"
    by (rule error_count_kat_loop)
  also have "\<dots> < error_count (kat_loop api ((line, lineno) # rest) (kat_loop api pre ?init))"
    by (rule error_count_unrecognized [OF assms(1)])
  finally have pos: "0 < error_count ?st"
    by (simp only: kat_loop_append)
  obtain g1 where g1: "check_mlkem_kat api a (Some (pre @ (line, lineno) # rest)) g = Some g1"
    and "error_count ?st \<le> error_count g1"
    using check_mlkem_kat_error_count [of api a "pre @ (line, lineno) # rest" g] by blast
  then have "error_count g1 \<noteq> 0"
    using pos by simp
  then show ?thesis
    by (simp add: main_run_def g1 Let_def info_def)
qed

text \<open>
  Claim C6, as amended. A line that starts with none of the recognized tags is reported
  through \<open>fail\<close>, which counts one more error, and the run goes on: the check for a
  complete record and the remaining lines are processed from the state that \<open>fail\<close> leaves.
  The process is not terminated; \<open>main\<close> returns, with exit status 1, when the count of
  errors was not negative at the start.
\<close>

theorem unknown_tag_reported:
  assumes "\<not> recognized line"
  shows "process_line api line lineno st
       = fail ''unknown tag at input line %d'' [Arg_d lineno] st
     \<and> kat_loop api ((line, lineno) # rest) st
       = kat_loop api rest
           (run_complete_record api (fail ''unknown tag at input line %d'' [Arg_d lineno] st))
     \<and> error_count st < error_count (kat_loop api ((line, lineno) # rest) st)
     \<and> (0 \<le> error_count g \<longrightarrow>
          (\<exists>g'. main_run api a (Some (pre @ (line, lineno) # rest)) e g = Some (1, g')))"
  using process_line_unrecognized [OF assms, of api lineno st]
    error_count_unrecognized [OF assms, of st api lineno rest]
    main_run_status [OF assms, of g api a pre lineno rest e]
  by (simp add: kat_iteration_def)

theorem unknown_tag_reported_witness:
  "\<not> recognized ''bogus''
   \<and> process_line zero_kem ''bogus'' 1 kat_state0
       = fail ''unknown tag at input line %d'' [Arg_d 1] kat_state0
   \<and> kat_loop zero_kem [(''bogus'', 1), (''Public Key: 00'', 2)] kat_state0
       = kat_loop zero_kem [(''Public Key: 00'', 2)]
           (run_complete_record zero_kem
             (fail ''unknown tag at input line %d'' [Arg_d 1] kat_state0))
   \<and> error_count kat_state0
       < error_count (kat_loop zero_kem [(''bogus'', 1), (''Public Key: 00'', 2)] kat_state0)
   \<and> 0 \<le> error_count globals0
   \<and> (\<exists>g'. main_run zero_kem 0 (Some ([] @ [(''bogus'', 1), (''Public Key: 00'', 2)]))
              ''0ms'' globals0 = Some (1, g'))"
proof -
  have h: "\<not> recognized ''bogus''"
    by (simp add: recognized_def recognized_tags_def strncmp_eq_def)
  have h0: "0 \<le> error_count globals0"
    by (simp add: globals0_def)
  note t = unknown_tag_reported [OF h, of zero_kem 1 kat_state0 "[(''Public Key: 00'', 2)]"
        globals0 0 "[]" "''0ms''"]
  have "\<exists>g'. main_run zero_kem 0 (Some ([] @ [(''bogus'', 1), (''Public Key: 00'', 2)]))
              ''0ms'' globals0 = Some (1, g')"
    using t h0 by (elim conjE impE)
  then show ?thesis
    using h h0 t by (elim conjE) (intro conjI)
qed

text \<open>
  Claim C6, as stated, fails: after the unknown tag at line 1 the run goes on, the
  record of the lines 2 to 5 is read and its decapsulation test is called, and \<open>main\<close>
  returns 1.
\<close>

theorem unknown_tag_counterexample:
  "main_run zero_kem 0
     (Some [(''bogus'', 1), (''Public Key: 00'', 2), (''Secret Key: 00'', 3),
            (''Ciphertext: 00'', 4), (''Shared Secret A: 00'', 5)])
     ''0ms'' globals0
   = Some (1,
       \<lparr>verbose = 0, error_count = 1, custom_data_file = 1,
        out = [INFO (''Checking ML-KEM.'' @ [CHR 0x0A]) [],
               FAIL ''unknown tag at input line %d'' [Arg_d 1],
               NOTE (''%d tests done'' @ [CHR 0x0A]) [Arg_d 1],
               INFO (''All tests completed in %s.  Errors: %d'' @ [CHR 0x0A])
                 [Arg_s ''0ms'', Arg_d 1]],
        calls = [DECAP_TEST 1 0 ''00'' ''00'' ''00'']\<rparr>)"
  by code_simp

subsection \<open>A test whose output differs from the known answer\<close>































end
